theory Spec2Isabelle
  imports Complex_Main
begin

section \<open>Entity model (types.ts)\<close>

text \<open>
  A JavaScript \<open>number\<close> is modelled as an exact \<^typ>\<open>real\<close>: rounding, NaN and the
  infinities of IEEE doubles are outside this model. The fields \<open>x\<close>, \<open>y\<close>, \<open>width\<close> and
  \<open>height\<close> of an entity are called \<open>ent_x\<close>, \<open>ent_y\<close>, \<open>ent_width\<close>, \<open>ent_height\<close>,
  since the engine has a \<open>width\<close> and a \<open>height\<close> of its own.
\<close>

datatype GameState = START | COUNTDOWN | PLAYING | GAME_OVER | VICTORY

datatype Difficulty = EASY | MEDIUM | HARD

record Entity =
  ent_x :: real
  ent_y :: real
  ent_width :: real
  ent_height :: real
  dx :: real
  dy :: real
  color :: string
  active :: bool

record Player = Entity +
  cooldown :: real

record Enemy = Entity +
  row :: nat
  col :: nat

record Bullet = Entity +
  isPlayerBullet :: bool

record Particle = Entity +
  life :: real
  maxLife :: real

section \<open>The engine (game/GameEngine.ts)\<close>

text \<open>
  The two callbacks of the constructor and the calls to the sound manager are recorded,
  in the order they happen, in the field \<open>events\<close>. \<open>Math.random()\<close> reads the stream
  \<open>rnd\<close> at position \<open>rpos\<close> and moves one position on. The canvas element and its
  drawing context are host objects and have no field here; \<open>draw\<close> is recorded as an
  event.
\<close>

datatype event =
    StateUpdate GameState
  | ScoreUpdate real
  | SoundResume
  | PlayShoot
  | PlayExplosion
  | Draw
  | RequestFrame

record GameEngine =
  width :: real
  height :: real
  state :: GameState
  player :: Player
  enemies :: "Enemy list"
  bullets :: "Bullet list"
  particles :: "Particle list"
  score :: real
  keys :: "string \<Rightarrow> bool"
  enemyDirection :: real
  enemySpeed :: real
  difficulty :: Difficulty
  countdownValue :: real
  lastFrameTime :: real
  countdownTimer :: real
  rnd :: "nat \<Rightarrow> real"
  rpos :: nat
  events :: "event list"

definition PLAYER_SPEED :: real where "PLAYER_SPEED = 5"
definition BULLET_SPEED :: real where "BULLET_SPEED = 7"
definition ENEMY_SPEED_BASE :: real where "ENEMY_SPEED_BASE = 1"
definition ENEMY_DROP :: real where "ENEMY_DROP = 20"
definition PARTICLE_LIFE :: real where "PARTICLE_LIFE = 45"

definition nextRandom :: "GameEngine \<Rightarrow> real" where
  "nextRandom s = rnd s (rpos s)"

definition advance :: "GameEngine \<Rightarrow> GameEngine" where
  "advance s = s\<lparr>rpos := Suc (rpos s)\<rparr>"

definition emit :: "event \<Rightarrow> GameEngine \<Rightarrow> GameEngine" where
  "emit ev s = s\<lparr>events := events s @ [ev]\<rparr>"

subsection \<open>constructor, resize\<close>

definition constructor :: "real \<Rightarrow> real \<Rightarrow> (nat \<Rightarrow> real) \<Rightarrow> GameEngine" where
  "constructor w h r =
     \<lparr>width = w, height = h, state = START,
      player = \<lparr>ent_x = w / 2 - 20, ent_y = h - 60, ent_width = 40, ent_height = 30,
                dx = 0, dy = 0, color = ''#00ffff'', active = True, cooldown = 0\<rparr>,
      enemies = [], bullets = [], particles = [], score = 0, keys = (\<lambda>k. False),
      enemyDirection = 1, enemySpeed = 1, difficulty = HARD,
      countdownValue = 3, lastFrameTime = 0, countdownTimer = 0,
      rnd = r, rpos = 0, events = []\<rparr>"

definition resize :: "real \<Rightarrow> real \<Rightarrow> GameEngine \<Rightarrow> GameEngine" where
  "resize w h s =
     (let s1 = s\<lparr>width := w, height := h\<rparr>;
          s2 = (if ent_x (player s1) > width s1
                then s1\<lparr>player := (player s1)\<lparr>ent_x := width s1 - ent_width (player s1)\<rparr>\<rparr>
                else s1)
      in s2\<lparr>player := (player s2)\<lparr>ent_y := height s2 - 60\<rparr>\<rparr>)"

subsection \<open>resetEntities\<close>

definition newEnemy :: "real \<Rightarrow> nat \<Rightarrow> nat \<Rightarrow> Enemy" where
  "newEnemy startX r c =
     \<lparr>ent_x = startX + real c * (30 + 20), ent_y = 60 + real r * (20 + 20),
      ent_width = 30, ent_height = 20, dx = 0, dy = 0, color = ''#39ff14'',
      active = True, row = r, col = c\<rparr>"

definition resetEntities :: "GameEngine \<Rightarrow> GameEngine" where
  "resetEntities s =
     (let startX = (width s - (8 * (30 + 20))) / 2
      in s\<lparr>bullets := [], particles := [],
           player := (player s)\<lparr>ent_x := width s / 2 - 20, active := True\<rparr>,
           enemySpeed := ENEMY_SPEED_BASE, enemyDirection := 1,
           enemies := concat (map (\<lambda>r. map (\<lambda>c. newEnemy startX r c) [0..<8]) [0..<4])\<rparr>)"

subsection \<open>spawnParticles\<close>

definition fireColors :: "string list" where
  "fireColors = [''#ffffff'', ''#ffff00'', ''#ffaa00'', ''#ff4400'']"

text \<open>\<open>fireColors[i]\<close>: an index outside the array reads \<open>undefined\<close>.\<close>

definition fireColorAt :: "int \<Rightarrow> string" where
  "fireColorAt i = (if 0 \<le> i \<and> i < int (length fireColors) then fireColors ! nat i
                    else ''undefined'')"

text \<open>
  The colour of one particle: the test \<open>Math.random() > 0.3\<close> on the draw \<open>r\<close>, and
  the palette entry at \<open>Math.floor(Math.random() * fireColors.length)\<close> for the draw \<open>r'\<close>.
\<close>

definition particleColor :: "string \<Rightarrow> real \<Rightarrow> real \<Rightarrow> string" where
  "particleColor baseColor r r' =
     (if r > 0.3 then fireColorAt \<lfloor>r' * real (length fireColors)\<rfloor> else baseColor)"

text \<open>One turn of the loop of \<open>spawnParticles\<close>.\<close>

definition spawnParticle :: "real \<Rightarrow> real \<Rightarrow> string \<Rightarrow> GameEngine \<Rightarrow> GameEngine" where
  "spawnParticle px py baseColor s =
     (let angle = nextRandom s * pi * 2; s1 = advance s;
          speed = nextRandom s1 * 4 + 1; s2 = advance s1;
          r = nextRandom s2; s3 = advance s2;
          c = particleColor baseColor r (nextRandom s3);
          s4 = (if r > 0.3 then advance s3 else s3);
          w = nextRandom s4 * 5 + 2; s5 = advance s4
      in s5\<lparr>particles := particles s5 @
           [\<lparr>ent_x = px, ent_y = py, ent_width = w, ent_height = 0,
             dx = cos angle * speed, dy = sin angle * speed, color = c, active = True,
             life = PARTICLE_LIFE, maxLife = PARTICLE_LIFE\<rparr>]\<rparr>)"

text \<open>
  \<open>for (let i = 0; i < count; i++)\<close>. Both call sites pass a natural number (the default
  25, and 40), so \<open>count\<close> is a \<^typ>\<open>nat\<close>.
\<close>

primrec spawnParticles :: "real \<Rightarrow> real \<Rightarrow> string \<Rightarrow> nat \<Rightarrow> GameEngine \<Rightarrow> GameEngine" where
  "spawnParticles px py baseColor 0 s = s"
| "spawnParticles px py baseColor (Suc n) s =
     spawnParticles px py baseColor n (spawnParticle px py baseColor s)"

subsection \<open>getDifficultyMultipliers\<close>

record Multipliers =
  speed :: real
  freq :: real

definition getDifficultyMultipliers :: "GameEngine \<Rightarrow> Multipliers" where
  "getDifficultyMultipliers s =
     (case difficulty s of
        EASY \<Rightarrow> \<lparr>speed = 1 / 3, freq = 1 / 3\<rparr>
      | MEDIUM \<Rightarrow> \<lparr>speed = 2 / 3, freq = 2 / 3\<rparr>
      | HARD \<Rightarrow> \<lparr>speed = 1, freq = 1\<rparr>)"

subsection \<open>update: the player and the bullets\<close>

definition movePlayer :: "GameEngine \<Rightarrow> GameEngine" where
  "movePlayer s =
     (let p = player s;
          x1 = (if keys s ''ArrowLeft'' \<or> keys s ''KeyA'' then ent_x p - PLAYER_SPEED
                else ent_x p);
          x2 = (if keys s ''ArrowRight'' \<or> keys s ''KeyD'' then x1 + PLAYER_SPEED else x1)
      in s\<lparr>player := p\<lparr>ent_x := max 0 (min (width s - ent_width p) x2)\<rparr>\<rparr>)"

definition playerBullet :: "Player \<Rightarrow> Bullet" where
  "playerBullet p =
     \<lparr>ent_x = ent_x p + ent_width p / 2, ent_y = ent_y p, ent_width = 3, ent_height = 10,
      dx = 0, dy = - BULLET_SPEED, color = ''#ff00ff'', active = True,
      isPlayerBullet = True\<rparr>"

definition playerShooting :: "GameEngine \<Rightarrow> GameEngine" where
  "playerShooting s =
     (let s1 = (if cooldown (player s) > 0
                then s\<lparr>player := (player s)\<lparr>cooldown := cooldown (player s) - 1\<rparr>\<rparr>
                else s)
      in if (keys s1 ''Space'' \<or> keys s1 ''ArrowUp'' \<or> keys s1 ''KeyW'')
            \<and> cooldown (player s1) \<le> 0
         then (let s2 = s1\<lparr>bullets := bullets s1 @ [playerBullet (player s1)]\<rparr>;
                   s3 = emit PlayShoot s2
               in s3\<lparr>player := (player s3)\<lparr>cooldown := 15\<rparr>\<rparr>)
         else s1)"

definition moveBullet :: "real \<Rightarrow> Bullet \<Rightarrow> Bullet" where
  "moveBullet h b =
     (let b1 = b\<lparr>ent_y := ent_y b + dy b\<rparr>
      in if ent_y b1 < 0 \<or> ent_y b1 > h then b1\<lparr>active := False\<rparr> else b1)"

definition updateBullets :: "GameEngine \<Rightarrow> GameEngine" where
  "updateBullets s = s\<lparr>bullets := map (moveBullet (height s)) (bullets s)\<rparr>"

subsection \<open>update: the enemies\<close>

text \<open>
  \<open>livingEnemies\<close> holds the very objects of \<open>this.enemies\<close>, and no \<open>active\<close> flag changes
  between its computation and the two loops over it; so a loop over \<open>livingEnemies\<close> is a
  loop over \<open>this.enemies\<close> that leaves the inactive ones as they are.
\<close>

definition livingEnemies :: "GameEngine \<Rightarrow> Enemy list" where
  "livingEnemies s = filter active (enemies s)"

definition moveEnemy :: "GameEngine \<Rightarrow> Enemy \<Rightarrow> Enemy" where
  "moveEnemy s e = e\<lparr>ent_x := ent_x e + enemySpeed s * enemyDirection s\<rparr>"

definition wallHit :: "GameEngine \<Rightarrow> Enemy \<Rightarrow> bool" where
  "wallHit s e \<longleftrightarrow>
     (ent_x e \<le> 0 \<and> enemyDirection s = - 1) \<or>
     (ent_x e + ent_width e \<ge> width s \<and> enemyDirection s = 1)"

definition enemyBullet :: "Multipliers \<Rightarrow> Enemy \<Rightarrow> Bullet" where
  "enemyBullet m e =
     \<lparr>ent_x = ent_x e + ent_width e / 2, ent_y = ent_y e + ent_height e,
      ent_width = 3, ent_height = 10, dx = 0, dy = (BULLET_SPEED / 1.5) * speed m,
      color = ''#ff3333'', active = True, isPlayerBullet = False\<rparr>"

text \<open>What one living enemy, already moved, does to the rest of the engine.\<close>

definition enemyEffects :: "Multipliers \<Rightarrow> Enemy \<Rightarrow> GameEngine \<Rightarrow> GameEngine" where
  "enemyEffects m e s =
     (let s1 = (if ent_y e + ent_height e \<ge> ent_y (player s)
                then emit (StateUpdate GAME_OVER) ((emit PlayExplosion s)\<lparr>state := GAME_OVER\<rparr>)
                else s);
          baseFreq = 0.001 * (1 + score s1 / 500);
          r = nextRandom s1; s2 = advance s1
      in if r < baseFreq * freq m
         then s2\<lparr>bullets := bullets s2 @ [enemyBullet m e]\<rparr>
         else s2)"

fun enemyLoop :: "Multipliers \<Rightarrow> Enemy list \<Rightarrow> bool \<Rightarrow> GameEngine
    \<Rightarrow> Enemy list \<times> bool \<times> GameEngine" where
  "enemyLoop m [] hitWall s = ([], hitWall, s)"
| "enemyLoop m (e # es) hitWall s =
     (if active e
      then (let e1 = moveEnemy s e
            in case enemyLoop m es (hitWall \<or> wallHit s e1) (enemyEffects m e1 s) of
                 (es', r) \<Rightarrow> (e1 # es', r))
      else (case enemyLoop m es hitWall s of (es', r) \<Rightarrow> (e # es', r)))"

definition dropEnemy :: "Enemy \<Rightarrow> Enemy" where
  "dropEnemy e = (if active e then e\<lparr>ent_y := ent_y e + ENEMY_DROP\<rparr> else e)"

definition enemyLogic :: "Multipliers \<Rightarrow> GameEngine \<Rightarrow> GameEngine" where
  "enemyLogic m s =
     (case enemyLoop m (enemies s) False s of
        (es, hitWall, s1) \<Rightarrow>
          (let s2 = s1\<lparr>enemies := es\<rparr>
           in if hitWall
              then s2\<lparr>enemyDirection := enemyDirection s2 * (- 1),
                      enemies := map dropEnemy (enemies s2),
                      enemySpeed := enemySpeed s2 + 0.2\<rparr>
              else s2))"

subsection \<open>update: collisions\<close>

text \<open>The bounding-box test of a bullet against an enemy or the player.\<close>

definition overlaps :: "Bullet \<Rightarrow> 'a Entity_scheme \<Rightarrow> bool" where
  "overlaps b e \<longleftrightarrow>
     ent_x b < ent_x e + ent_width e \<and> ent_x b + ent_width b > ent_x e \<and>
     ent_y b < ent_y e + ent_height e \<and> ent_y b + ent_height b > ent_y e"

definition killEnemy :: "Enemy \<Rightarrow> GameEngine \<Rightarrow> GameEngine" where
  "killEnemy e s =
     (let s1 = emit PlayExplosion s;
          s2 = spawnParticles (ent_x e + ent_width e / 2) (ent_y e + ent_height e / 2)
                 (color e) 25 s1;
          s3 = s2\<lparr>score := score s2 + 100\<rparr>
      in emit (ScoreUpdate (score s3)) s3)"

text \<open>
  The inner loop \<open>this.enemies.forEach\<close> for one player bullet. The bullet's \<open>active\<close>
  flag is not read again inside the loop.
\<close>

fun hitEnemies :: "Bullet \<Rightarrow> Enemy list \<Rightarrow> GameEngine \<Rightarrow> Bullet \<times> Enemy list \<times> GameEngine" where
  "hitEnemies b [] s = (b, [], s)"
| "hitEnemies b (e # es) s =
     (if \<not> active e then (case hitEnemies b es s of (b', es', s') \<Rightarrow> (b', e # es', s'))
      else if overlaps b e
      then (case hitEnemies (b\<lparr>active := False\<rparr>) es (killEnemy e s) of
              (b', es', s') \<Rightarrow> (b', e\<lparr>active := False\<rparr> # es', s'))
      else (case hitEnemies b es s of (b', es', s') \<Rightarrow> (b', e # es', s')))"

definition hitPlayer :: "GameEngine \<Rightarrow> GameEngine" where
  "hitPlayer s =
     (let p = player s;
          s1 = emit PlayExplosion s;
          s2 = spawnParticles (ent_x p + ent_width p / 2) (ent_y p + ent_height p / 2)
                 (color p) 40 s1
      in emit (StateUpdate GAME_OVER) (s2\<lparr>state := GAME_OVER\<rparr>))"

text \<open>The body of the outer loop \<open>this.bullets.forEach\<close>.\<close>

definition collideBullet :: "Bullet \<Rightarrow> GameEngine \<Rightarrow> Bullet \<times> GameEngine" where
  "collideBullet b s =
     (if \<not> active b then (b, s)
      else if isPlayerBullet b
      then (case hitEnemies b (enemies s) s of (b', es', s') \<Rightarrow> (b', s'\<lparr>enemies := es'\<rparr>))
      else if overlaps b (player s) then (b\<lparr>active := False\<rparr>, hitPlayer s)
      else (b, s))"

fun collideLoop :: "Bullet list \<Rightarrow> GameEngine \<Rightarrow> Bullet list \<times> GameEngine" where
  "collideLoop [] s = ([], s)"
| "collideLoop (b # bs) s =
     (case collideBullet b s of
        (b', s1) \<Rightarrow> (case collideLoop bs s1 of (bs', s2) \<Rightarrow> (b' # bs', s2)))"

definition collisionDetection :: "GameEngine \<Rightarrow> GameEngine" where
  "collisionDetection s = (case collideLoop (bullets s) s of (bs, s1) \<Rightarrow> s1\<lparr>bullets := bs\<rparr>)"

subsection \<open>update: particles, cleanup\<close>

definition updateParticle :: "Particle \<Rightarrow> Particle" where
  "updateParticle p =
     (let p1 = p\<lparr>ent_x := ent_x p + dx p, ent_y := ent_y p + dy p, life := life p - 1,
                dx := dx p * 0.95, dy := dy p * 0.95, ent_width := ent_width p * 0.96\<rparr>
      in if life p1 \<le> 0 \<or> ent_width p1 < 0.2 then p1\<lparr>active := False\<rparr> else p1)"

definition updateParticles :: "GameEngine \<Rightarrow> GameEngine" where
  "updateParticles s = s\<lparr>particles := map updateParticle (particles s)\<rparr>"

definition cleanupArrays :: "GameEngine \<Rightarrow> GameEngine" where
  "cleanupArrays s = s\<lparr>bullets := filter active (bullets s),
                       particles := filter active (particles s)\<rparr>"

subsection \<open>update\<close>

definition update :: "real \<Rightarrow> GameEngine \<Rightarrow> GameEngine" where
  "update dt s =
     (if state s = COUNTDOWN
      then (let s1 = s\<lparr>countdownTimer := countdownTimer s + dt\<rparr>
            in if countdownTimer s1 \<ge> 1000
               then (let s2 = s1\<lparr>countdownValue := countdownValue s1 - 1,
                                  countdownTimer := 0\<rparr>
                     in if countdownValue s2 \<le> 0
                        then emit (StateUpdate PLAYING) (s2\<lparr>state := PLAYING\<rparr>)
                        else s2)
               else s1)
      else if state s \<noteq> PLAYING then s
      else (let multipliers = getDifficultyMultipliers s;
                s3 = updateBullets (playerShooting (movePlayer s))
            in if livingEnemies s3 = []
               then emit (StateUpdate VICTORY) (s3\<lparr>state := VICTORY\<rparr>)
               else cleanupArrays (updateParticles (collisionDetection
                      (enemyLogic multipliers s3)))))"

text \<open>The engine when \<open>update\<close> reaches its collision detection (line 302).\<close>

definition beforeCollision :: "GameEngine \<Rightarrow> GameEngine" where
  "beforeCollision s =
     enemyLogic (getDifficultyMultipliers s) (updateBullets (playerShooting (movePlayer s)))"

subsection \<open>draw, loop, start\<close>

text \<open>
  Of \<open>draw\<close> only what reaches the engine is kept: the painting is one event, and the
  thruster flame reads \<open>Math.random()\<close> once, and once more when it is drawn.
\<close>

definition draw :: "GameEngine \<Rightarrow> GameEngine" where
  "draw s =
     (let s1 = (if state s = PLAYING \<or> state s = COUNTDOWN
                then (let r = nextRandom s; s' = advance s
                      in if r > 0.2 then advance s' else s')
                else s)
      in emit Draw s1)"

text \<open>\<open>now\<close> is the reading of \<open>performance.now()\<close>.\<close>

definition loop :: "real \<Rightarrow> GameEngine \<Rightarrow> GameEngine" where
  "loop now s =
     (let dt = now - lastFrameTime s;
          s1 = s\<lparr>lastFrameTime := now\<rparr>;
          s2 = draw (update dt s1)
      in if state s2 = PLAYING \<or> state s2 = COUNTDOWN then emit RequestFrame s2
         else if state s2 = GAME_OVER \<or> state s2 = VICTORY then draw s2
         else s2)"

text \<open>
  \<open>start\<close> up to its last statement: \<open>t0\<close> is the clock reading stored in
  \<open>lastFrameTime\<close>.
\<close>

definition startSetup :: "Difficulty \<Rightarrow> real \<Rightarrow> GameEngine \<Rightarrow> GameEngine" where
  "startSetup d t0 s =
     (let s1 = emit SoundResume s;
          s2 = emit (StateUpdate COUNTDOWN) (s1\<lparr>difficulty := d, state := COUNTDOWN\<rparr>);
          s3 = emit (ScoreUpdate 0) (s2\<lparr>score := 0\<rparr>);
          s4 = resetEntities s3
      in s4\<lparr>countdownValue := 3, countdownTimer := 0, lastFrameTime := t0\<rparr>)"

text \<open>
  \<open>start\<close> ends with \<open>this.loop()\<close>, which runs the first frame at once: \<open>t1\<close> is the
  clock reading that first \<open>loop\<close> takes.
\<close>

definition start :: "Difficulty \<Rightarrow> real \<Rightarrow> real \<Rightarrow> GameEngine \<Rightarrow> GameEngine" where
  "start d t0 t1 s = loop t1 (startSetup d t0 s)"

text \<open>
  An enemy that the inner loop of the collision detection deactivates for the bullet
  \<open>b\<close>: it is active and its box overlaps the bullet's.
\<close>

definition shotDown :: "Bullet \<Rightarrow> Enemy \<Rightarrow> bool" where
  "shotDown b e \<longleftrightarrow> active e \<and> overlaps b e"

text \<open>
  The particle one turn of the loop of \<open>spawnParticles\<close> builds when it reads the random
  stream \<open>f\<close> from position \<open>i\<close>: direction, speed, colour test, palette index (read only
  when the colour test succeeds) and radius, in this order.
\<close>

definition particleAt :: "real \<Rightarrow> real \<Rightarrow> string \<Rightarrow> (nat \<Rightarrow> real) \<Rightarrow> nat \<Rightarrow> Particle" where
  "particleAt px py baseColor f i =
     \<lparr>ent_x = px, ent_y = py,
      ent_width = f (i + (if f (i + 2) > 0.3 then 4 else 3)) * 5 + 2, ent_height = 0,
      dx = cos (f i * pi * 2) * (f (i + 1) * 4 + 1),
      dy = sin (f i * pi * 2) * (f (i + 1) * 4 + 1),
      color = particleColor baseColor (f (i + 2)) (f (i + 3)), active = True,
      life = PARTICLE_LIFE, maxLife = PARTICLE_LIFE\<rparr>"

text \<open>The events that are calls of the score callback.\<close>

definition isScoreUpdate :: "event \<Rightarrow> bool" where
  "isScoreUpdate ev = (case ev of ScoreUpdate n \<Rightarrow> True | _ \<Rightarrow> False)"

subsection \<open>Example engines\<close>

text \<open>An engine as the constructor leaves it, on an 800 by 600 canvas.\<close>

definition idleEngine :: GameEngine where
  "idleEngine = constructor 800 600 (\<lambda>n. 1 / 2)"

text \<open>A session in play: one enemy in the formation, the left arrow key held.\<close>

definition playingEngine :: GameEngine where
  "playingEngine = idleEngine\<lparr>state := PLAYING, enemies := [newEnemy 200 0 0],
     keys := (\<lambda>k. k = ''ArrowLeft'')\<rparr>"

text \<open>The formation at the left wall, moving left; its middle enemy already shot.\<close>

definition wallEngine :: GameEngine where
  "wallEngine = playingEngine\<lparr>enemyDirection := - 1,
     enemies := [newEnemy 0 0 0, (newEnemy 0 1 1)\<lparr>active := False\<rparr>, newEnemy 0 2 2]\<rparr>"

text \<open>
  The whole formation shot, one enemy bullet still in flight, the fire key held.
\<close>

definition clearedEngine :: GameEngine where
  "clearedEngine = playingEngine\<lparr>enemies := [(newEnemy 200 0 0)\<lparr>active := False\<rparr>],
     bullets := [enemyBullet \<lparr>speed = 1, freq = 1\<rparr> (newEnemy 200 0 0)],
     keys := (\<lambda>k. k = ''Space'')\<rparr>"

text \<open>An enemy bullet just above the middle of the player's box.\<close>

definition incomingBullet :: Bullet where
  "incomingBullet = (enemyBullet \<lparr>speed = 1, freq = 1\<rparr> (newEnemy 200 0 0))\<lparr>ent_x := 390, ent_y := 545\<rparr>"

text \<open>A session in play with that bullet in flight, the one enemy still active.\<close>

definition underFireEngine :: GameEngine where
  "underFireEngine = playingEngine\<lparr>bullets := [incomingBullet]\<rparr>"

text \<open>The same session after the last enemy has been shot.\<close>

definition lastShotEngine :: GameEngine where
  "lastShotEngine = underFireEngine\<lparr>enemies := [(newEnemy 200 0 0)\<lparr>active := False\<rparr>]\<rparr>"

text \<open>
  A player bullet that its next move takes inside the boxes of two enemies of three, and
  a session in play with that bullet as the only one in flight.
\<close>

definition crossBullet :: Bullet where
  "crossBullet = (playerBullet (player idleEngine))\<lparr>ent_x := 110, ent_y := 72\<rparr>"

definition crossfireEngine :: GameEngine where
  "crossfireEngine = playingEngine\<lparr>enemies :=
     [newEnemy 100 0 0, (newEnemy 100 0 0)\<lparr>ent_x := 102\<rparr>, newEnemy 100 0 4],
     bullets := [crossBullet]\<rparr>"

text \<open>
  An engine whose random stream gives \<open>r\<close> to the colour test of the first particle
  spawned, and 0 to every other draw.
\<close>

definition colourDrawEngine :: "real \<Rightarrow> GameEngine" where
  "colourDrawEngine r = idleEngine\<lparr>rnd := (\<lambda>n. if n = 2 then r else 0)\<rparr>"

section \<open>What each part of update leaves alone\<close>

lemma spawnParticle_frame:
  "state (spawnParticle px py c s) = state s"
  "player (spawnParticle px py c s) = player s"
  "enemies (spawnParticle px py c s) = enemies s"
  "bullets (spawnParticle px py c s) = bullets s"
  "score (spawnParticle px py c s) = score s"
  "events (spawnParticle px py c s) = events s"
  "width (spawnParticle px py c s) = width s"
  "height (spawnParticle px py c s) = height s"
  "enemySpeed (spawnParticle px py c s) = enemySpeed s"
  "enemyDirection (spawnParticle px py c s) = enemyDirection s"
  "rnd (spawnParticle px py c s) = rnd s"
  by (simp_all add: spawnParticle_def Let_def advance_def)

lemma spawnParticles_frame:
  "state (spawnParticles px py c n s) = state s"
  "player (spawnParticles px py c n s) = player s"
  "enemies (spawnParticles px py c n s) = enemies s"
  "bullets (spawnParticles px py c n s) = bullets s"
  "score (spawnParticles px py c n s) = score s"
  "events (spawnParticles px py c n s) = events s"
  "width (spawnParticles px py c n s) = width s"
  "height (spawnParticles px py c n s) = height s"
  "enemySpeed (spawnParticles px py c n s) = enemySpeed s"
  "enemyDirection (spawnParticles px py c n s) = enemyDirection s"
  "rnd (spawnParticles px py c n s) = rnd s"
  by (induction n arbitrary: s; simp add: spawnParticle_frame)+

lemma killEnemy_frame:
  "state (killEnemy e s) = state s"
  "player (killEnemy e s) = player s"
  "enemies (killEnemy e s) = enemies s"
  "bullets (killEnemy e s) = bullets s"
  "width (killEnemy e s) = width s"
  "height (killEnemy e s) = height s"
  "enemySpeed (killEnemy e s) = enemySpeed s"
  "enemyDirection (killEnemy e s) = enemyDirection s"
  "rnd (killEnemy e s) = rnd s"
  by (simp_all add: killEnemy_def Let_def emit_def spawnParticles_frame)

lemma hitEnemies_frame:
  "state (snd (snd (hitEnemies b es s))) = state s
   \<and> player (snd (snd (hitEnemies b es s))) = player s
   \<and> bullets (snd (snd (hitEnemies b es s))) = bullets s
   \<and> width (snd (snd (hitEnemies b es s))) = width s
   \<and> height (snd (snd (hitEnemies b es s))) = height s
   \<and> enemySpeed (snd (snd (hitEnemies b es s))) = enemySpeed s
   \<and> enemyDirection (snd (snd (hitEnemies b es s))) = enemyDirection s
   \<and> rnd (snd (snd (hitEnemies b es s))) = rnd s"
  by (induction es arbitrary: b s) (simp_all add: killEnemy_frame case_prod_beta)

lemma hitPlayer_frame:
  "player (hitPlayer s) = player s"
  "enemies (hitPlayer s) = enemies s"
  "bullets (hitPlayer s) = bullets s"
  "score (hitPlayer s) = score s"
  "width (hitPlayer s) = width s"
  "height (hitPlayer s) = height s"
  "enemySpeed (hitPlayer s) = enemySpeed s"
  "enemyDirection (hitPlayer s) = enemyDirection s"
  "rnd (hitPlayer s) = rnd s"
  "state (hitPlayer s) = GAME_OVER"
  by (simp_all add: hitPlayer_def Let_def emit_def spawnParticles_frame)

lemma collideBullet_frame:
  "player (snd (collideBullet b s)) = player s
   \<and> width (snd (collideBullet b s)) = width s
   \<and> height (snd (collideBullet b s)) = height s
   \<and> enemySpeed (snd (collideBullet b s)) = enemySpeed s
   \<and> enemyDirection (snd (collideBullet b s)) = enemyDirection s
   \<and> rnd (snd (collideBullet b s)) = rnd s"
  using hitEnemies_frame [of b "enemies s" s]
  by (simp add: collideBullet_def hitPlayer_frame case_prod_beta)

lemma collideLoop_frame:
  "player (snd (collideLoop bs s)) = player s
   \<and> width (snd (collideLoop bs s)) = width s
   \<and> height (snd (collideLoop bs s)) = height s
   \<and> enemySpeed (snd (collideLoop bs s)) = enemySpeed s
   \<and> enemyDirection (snd (collideLoop bs s)) = enemyDirection s
   \<and> rnd (snd (collideLoop bs s)) = rnd s"
proof (induction bs arbitrary: s)
  case Nil
  show ?case by simp
next
  case (Cons b bs)
  show ?case
    using Cons.IH [of "snd (collideBullet b s)"] collideBullet_frame [of b s]
    by (simp add: case_prod_beta)
qed

lemma collisionDetection_frame:
  "player (collisionDetection s) = player s"
  "width (collisionDetection s) = width s"
  "height (collisionDetection s) = height s"
  "enemySpeed (collisionDetection s) = enemySpeed s"
  "enemyDirection (collisionDetection s) = enemyDirection s"
  using collideLoop_frame [of "bullets s" s]
  by (simp_all add: collisionDetection_def case_prod_beta)

lemma pre_frame:
  "enemies (movePlayer s) = enemies s" "enemySpeed (movePlayer s) = enemySpeed s"
  "enemyDirection (movePlayer s) = enemyDirection s" "width (movePlayer s) = width s"
  "height (movePlayer s) = height s" "state (movePlayer s) = state s"
  "enemies (playerShooting s) = enemies s" "enemySpeed (playerShooting s) = enemySpeed s"
  "enemyDirection (playerShooting s) = enemyDirection s" "width (playerShooting s) = width s"
  "height (playerShooting s) = height s" "state (playerShooting s) = state s"
  "ent_x (player (playerShooting s)) = ent_x (player s)"
  "ent_width (player (playerShooting s)) = ent_width (player s)"
  "enemies (updateBullets s) = enemies s" "enemySpeed (updateBullets s) = enemySpeed s"
  "enemyDirection (updateBullets s) = enemyDirection s" "width (updateBullets s) = width s"
  "height (updateBullets s) = height s" "state (updateBullets s) = state s"
  "player (updateBullets s) = player s"
  "events (movePlayer s) = events s" "bullets (movePlayer s) = bullets s"
  "rpos (movePlayer s) = rpos s" "particles (movePlayer s) = particles s"
  "score (movePlayer s) = score s"
  "rpos (playerShooting s) = rpos s" "particles (playerShooting s) = particles s"
  "score (playerShooting s) = score s"
  "events (updateBullets s) = events s" "rpos (updateBullets s) = rpos s"
  "particles (updateBullets s) = particles s" "score (updateBullets s) = score s"
  "rnd (movePlayer s) = rnd s" "rnd (playerShooting s) = rnd s"
  "rnd (updateBullets s) = rnd s"
  by (simp_all add: movePlayer_def playerShooting_def updateBullets_def Let_def emit_def)

lemma post_frame:
  "player (updateParticles s) = player s" "width (updateParticles s) = width s"
  "state (updateParticles s) = state s" "enemies (updateParticles s) = enemies s"
  "enemySpeed (updateParticles s) = enemySpeed s"
  "enemyDirection (updateParticles s) = enemyDirection s"
  "events (updateParticles s) = events s" "bullets (updateParticles s) = bullets s"
  "player (cleanupArrays s) = player s" "width (cleanupArrays s) = width s"
  "state (cleanupArrays s) = state s" "enemies (cleanupArrays s) = enemies s"
  "enemySpeed (cleanupArrays s) = enemySpeed s"
  "enemyDirection (cleanupArrays s) = enemyDirection s"
  "events (cleanupArrays s) = events s"
  "score (updateParticles s) = score s" "score (cleanupArrays s) = score s"
  by (simp_all add: updateParticles_def cleanupArrays_def)

lemma enemyEffects_frame:
  "player (enemyEffects m e s) = player s" "width (enemyEffects m e s) = width s"
  "height (enemyEffects m e s) = height s" "enemySpeed (enemyEffects m e s) = enemySpeed s"
  "enemyDirection (enemyEffects m e s) = enemyDirection s"
  "enemies (enemyEffects m e s) = enemies s" "score (enemyEffects m e s) = score s"
  "particles (enemyEffects m e s) = particles s" "rnd (enemyEffects m e s) = rnd s"
  by (simp_all add: enemyEffects_def Let_def emit_def advance_def)

lemma enemyLoop_frame:
  "player (snd (snd (enemyLoop m es hw s))) = player s
   \<and> width (snd (snd (enemyLoop m es hw s))) = width s
   \<and> height (snd (snd (enemyLoop m es hw s))) = height s
   \<and> enemySpeed (snd (snd (enemyLoop m es hw s))) = enemySpeed s
   \<and> enemyDirection (snd (snd (enemyLoop m es hw s))) = enemyDirection s
   \<and> score (snd (snd (enemyLoop m es hw s))) = score s
   \<and> particles (snd (snd (enemyLoop m es hw s))) = particles s
   \<and> rnd (snd (snd (enemyLoop m es hw s))) = rnd s"
  by (induction es arbitrary: hw s) (simp_all add: enemyEffects_frame case_prod_beta Let_def)

lemma moveEnemy_cong:
  "enemySpeed t = enemySpeed s \<Longrightarrow> enemyDirection t = enemyDirection s
   \<Longrightarrow> moveEnemy t e = moveEnemy s e"
  by (simp add: moveEnemy_def)

lemma enemyLoop_enemies:
  "enemySpeed t = enemySpeed s \<Longrightarrow> enemyDirection t = enemyDirection s \<Longrightarrow>
   fst (enemyLoop m es hw t) = map (\<lambda>e. if active e then moveEnemy s e else e) es"
proof (induction es arbitrary: hw t)
  case Nil
  show ?case by simp
next
  case (Cons e es)
  have "fst (enemyLoop m es hw' (enemyEffects m e' t))
        = map (\<lambda>e. if active e then moveEnemy s e else e) es" for hw' e'
    by (rule Cons.IH) (simp_all add: Cons.prems enemyEffects_frame)
  moreover have "fst (enemyLoop m es hw t) = map (\<lambda>e. if active e then moveEnemy s e else e) es"
    by (rule Cons.IH) (simp_all add: Cons.prems)
  moreover have "moveEnemy t e = moveEnemy s e"
    using Cons.prems by (rule moveEnemy_cong)
  ultimately show ?case
    by (simp add: case_prod_beta Let_def)
qed

lemma enemyLoop_hitWall:
  "width t = width s \<Longrightarrow> enemySpeed t = enemySpeed s \<Longrightarrow> enemyDirection t = enemyDirection s \<Longrightarrow>
   fst (snd (enemyLoop m es hw t))
   = (hw \<or> (\<exists>e\<in>set es. active e \<and> wallHit s (moveEnemy s e)))"
proof (induction es arbitrary: hw t)
  case Nil
  show ?case by simp
next
  case (Cons e es)
  have a: "fst (snd (enemyLoop m es hw' (enemyEffects m e' t)))
        = (hw' \<or> (\<exists>e\<in>set es. active e \<and> wallHit s (moveEnemy s e)))" for hw' e'
    by (rule Cons.IH) (simp_all add: Cons.prems enemyEffects_frame)
  have b: "fst (snd (enemyLoop m es hw t))
        = (hw \<or> (\<exists>e\<in>set es. active e \<and> wallHit s (moveEnemy s e)))"
    by (rule Cons.IH) (simp_all add: Cons.prems)
  have c: "moveEnemy t e = moveEnemy s e" "wallHit t (moveEnemy s e) = wallHit s (moveEnemy s e)"
    using Cons.prems by (simp_all add: moveEnemy_def wallHit_def)
  show ?case
  proof (cases "active e")
    case True
    then show ?thesis by (simp add: case_prod_beta Let_def a c)
  next
    case False
    then show ?thesis by (simp add: case_prod_beta b)
  qed
qed

lemma enemyLogic_frame:
  "player (enemyLogic m s) = player s" "width (enemyLogic m s) = width s"
  "height (enemyLogic m s) = height s" "score (enemyLogic m s) = score s"
  "particles (enemyLogic m s) = particles s" "rnd (enemyLogic m s) = rnd s"
  using enemyLoop_frame [of m "enemies s" False s]
  by (simp_all add: enemyLogic_def case_prod_beta Let_def)

lemma beforeCollision_frame:
  "player (beforeCollision s) = player (playerShooting (movePlayer s))"
  "width (beforeCollision s) = width s"
  by (simp_all add: beforeCollision_def enemyLogic_frame pre_frame)

lemma update_idle: "state s = START \<or> state s = GAME_OVER \<or> state s = VICTORY \<Longrightarrow> update dt s = s"
  by (auto simp add: update_def)

lemma movePlayer_clamped:
  "ent_width (player s) \<le> width s \<Longrightarrow>
   0 \<le> ent_x (player (movePlayer s)) \<and>
   ent_x (player (movePlayer s)) \<le> width s - ent_width (player (movePlayer s))"
  by (simp add: movePlayer_def Let_def)

lemma update_width: "width (update dt s) = width s"
  by (simp add: update_def Let_def emit_def post_frame collisionDetection_frame
      enemyLogic_frame pre_frame)

lemma update_player_PLAYING:
  "state s = PLAYING \<Longrightarrow>
   ent_x (player (update dt s)) = ent_x (player (movePlayer s)) \<and>
   ent_width (player (update dt s)) = ent_width (player (movePlayer s))"
  by (simp add: update_def Let_def emit_def post_frame collisionDetection_frame
      enemyLogic_frame pre_frame)

section \<open>The player stays on the surface\<close>

text \<open>
  C7. After an update call made in PLAYING the player's x lies within
  [0, width - player width], whatever keys are held, provided the surface is at least as
  wide as the player.
\<close>

theorem player_stays_on_surface:
  assumes "state s = PLAYING" and "ent_width (player s) \<le> width s"
  shows "0 \<le> ent_x (player (update dt s)) \<and>
         ent_x (player (update dt s)) \<le> width (update dt s) - ent_width (player (update dt s))"
  using movePlayer_clamped [OF assms(2)] update_player_PLAYING [OF assms(1), of dt]
  by (simp add: update_width)

theorem player_stays_on_surface_witness:
  "state playingEngine = PLAYING \<and> ent_width (player playingEngine) \<le> width playingEngine \<and>
   0 \<le> ent_x (player (update 16 playingEngine)) \<and>
   ent_x (player (update 16 playingEngine))
     \<le> width (update 16 playingEngine) - ent_width (player (update 16 playingEngine))"
  using player_stays_on_surface [of playingEngine 16]
  by (simp add: playingEngine_def idleEngine_def constructor_def)

section \<open>States without physics\<close>

text \<open>
  C8. In START, GAME_OVER and VICTORY an update call changes nothing, whatever the elapsed
  time: the engine after the call, with its record of callbacks, is the engine before.
\<close>

theorem update_noop_outside_play:
  "state s = START \<or> state s = GAME_OVER \<or> state s = VICTORY \<Longrightarrow> update dt s = s"
  by (rule update_idle)

theorem update_noop_outside_play_witness:
  "update 16 idleEngine = idleEngine \<and>
   update 1000 (playingEngine\<lparr>state := GAME_OVER\<rparr>) = playingEngine\<lparr>state := GAME_OVER\<rparr> \<and>
   update 0 (playingEngine\<lparr>state := VICTORY\<rparr>) = playingEngine\<lparr>state := VICTORY\<rparr>"
  using update_noop_outside_play [of idleEngine 16]
    update_noop_outside_play [of "playingEngine\<lparr>state := GAME_OVER\<rparr>" 1000]
    update_noop_outside_play [of "playingEngine\<lparr>state := VICTORY\<rparr>" 0]
  by (simp add: idleEngine_def constructor_def)

section \<open>The countdown\<close>

lemma update_countdown_wait:
  "state s = COUNTDOWN \<Longrightarrow> countdownTimer s + dt < 1000 \<Longrightarrow>
   update dt s = s\<lparr>countdownTimer := countdownTimer s + dt\<rparr>"
  by (simp add: update_def Let_def)

lemma update_countdown_tick:
  "state s = COUNTDOWN \<Longrightarrow> countdownTimer s + dt \<ge> 1000 \<Longrightarrow> countdownValue s > 1 \<Longrightarrow>
   update dt s = s\<lparr>countdownTimer := 0, countdownValue := countdownValue s - 1\<rparr>"
  by (simp add: update_def Let_def)

lemma update_countdown_go:
  "state s = COUNTDOWN \<Longrightarrow> countdownTimer s + dt \<ge> 1000 \<Longrightarrow> countdownValue s \<le> 1 \<Longrightarrow>
   update dt s = s\<lparr>countdownTimer := 0, countdownValue := countdownValue s - 1,
                    state := PLAYING, events := events s @ [StateUpdate PLAYING]\<rparr>"
  by (simp add: update_def Let_def emit_def)

text \<open>
  C9. In COUNTDOWN one update call takes at most one off the counter, however large the
  elapsed time: when the accumulated timer reaches 1000 the counter drops by one and the
  timer restarts from 0, otherwise the counter stays. From 3, a single call of 3000 ms
  leaves the counter at 2 and the state in COUNTDOWN.
\<close>

theorem countdown_one_decrement_per_call:
  assumes "state s = COUNTDOWN"
  shows "countdownValue s - 1 \<le> countdownValue (update dt s) \<and>
         (1000 \<le> countdownTimer s + dt \<longrightarrow>
            countdownValue (update dt s) = countdownValue s - 1 \<and>
            countdownTimer (update dt s) = 0) \<and>
         (countdownTimer s + dt < 1000 \<longrightarrow>
            countdownValue (update dt s) = countdownValue s \<and>
            countdownTimer (update dt s) = countdownTimer s + dt) \<and>
         (1 < countdownValue s \<longrightarrow> state (update dt s) = COUNTDOWN)"
  using assms by (simp add: update_def Let_def emit_def)

theorem countdown_one_decrement_per_call_witness:
  "state (idleEngine\<lparr>state := COUNTDOWN\<rparr>) = COUNTDOWN \<and>
   countdownValue (idleEngine\<lparr>state := COUNTDOWN\<rparr>) = 3 \<and>
   countdownTimer (idleEngine\<lparr>state := COUNTDOWN\<rparr>) = 0 \<and>
   countdownValue (update 3000 (idleEngine\<lparr>state := COUNTDOWN\<rparr>)) = 2 \<and>
   countdownTimer (update 3000 (idleEngine\<lparr>state := COUNTDOWN\<rparr>)) = 0 \<and>
   state (update 3000 (idleEngine\<lparr>state := COUNTDOWN\<rparr>)) = COUNTDOWN"
  using countdown_one_decrement_per_call [of "idleEngine\<lparr>state := COUNTDOWN\<rparr>" 3000]
  by (simp add: idleEngine_def constructor_def)

lemma draw_fields:
  "state (draw s) = state s" "countdownValue (draw s) = countdownValue s"
  "countdownTimer (draw s) = countdownTimer s" "events (draw s) = events s @ [Draw]"
  by (simp_all add: draw_def Let_def emit_def advance_def)

lemma loop_countdown_wait:
  assumes "state s = COUNTDOWN" and "countdownTimer s + (now - lastFrameTime s) < 1000"
  shows "state (loop now s) = COUNTDOWN" "countdownValue (loop now s) = countdownValue s"
    "countdownTimer (loop now s) = countdownTimer s + (now - lastFrameTime s)"
    "events (loop now s) = events s @ [Draw, RequestFrame]"
proof -
  have u: "update (now - lastFrameTime s) (s\<lparr>lastFrameTime := now\<rparr>)
           = s\<lparr>lastFrameTime := now,
                countdownTimer := countdownTimer s + (now - lastFrameTime s)\<rparr>"
    using update_countdown_wait [of "s\<lparr>lastFrameTime := now\<rparr>" "now - lastFrameTime s"] assms
    by simp
  show "state (loop now s) = COUNTDOWN" "countdownValue (loop now s) = countdownValue s"
    "countdownTimer (loop now s) = countdownTimer s + (now - lastFrameTime s)"
    "events (loop now s) = events s @ [Draw, RequestFrame]"
    using assms(1) by (simp_all add: loop_def Let_def u draw_fields emit_def)
qed

lemma startSetup_fields:
  "state (startSetup d t0 s) = COUNTDOWN" "countdownValue (startSetup d t0 s) = 3"
  "countdownTimer (startSetup d t0 s) = 0" "lastFrameTime (startSetup d t0 s) = t0"
  "events (startSetup d t0 s) = events s @ [SoundResume, StateUpdate COUNTDOWN, ScoreUpdate 0]"
  by (simp_all add: startSetup_def resetEntities_def emit_def Let_def)

lemma start_fields:
  assumes "t1 - t0 < 1000"
  shows "state (start d t0 t1 s) = COUNTDOWN" "countdownValue (start d t0 t1 s) = 3"
    "countdownTimer (start d t0 t1 s) = t1 - t0"
    "events (start d t0 t1 s)
     = events s @ [SoundResume, StateUpdate COUNTDOWN, ScoreUpdate 0, Draw, RequestFrame]"
  using loop_countdown_wait [of "startSetup d t0 s" t1] assms
  by (simp_all add: start_def startSetup_fields)

lemma three_seconds:
  assumes "state s0 = COUNTDOWN" and "countdownValue s0 = 3"
    and "0 \<le> countdownTimer s0" and "countdownTimer s0 < 1000"
  shows "let u1 = update 1000 s0; u2 = update 1000 u1; u3 = update 1000 u2
         in state u1 = COUNTDOWN \<and> countdownValue u1 = 2 \<and> events u1 = events s0 \<and>
            state u2 = COUNTDOWN \<and> countdownValue u2 = 1 \<and> events u2 = events s0 \<and>
            state u3 = PLAYING \<and> countdownValue u3 = 0 \<and>
            events u3 = events s0 @ [StateUpdate PLAYING]"
proof -
  have u1: "update 1000 s0 = s0\<lparr>countdownTimer := 0, countdownValue := 2\<rparr>"
    using update_countdown_tick [of s0 1000] assms by simp
  have u2: "update 1000 (s0\<lparr>countdownTimer := 0, countdownValue := 2\<rparr>)
            = s0\<lparr>countdownTimer := 0, countdownValue := 1\<rparr>"
    using update_countdown_tick [of "s0\<lparr>countdownTimer := 0, countdownValue := 2\<rparr>" 1000] assms
    by simp
  have u3: "update 1000 (s0\<lparr>countdownTimer := 0, countdownValue := 1\<rparr>)
            = s0\<lparr>countdownTimer := 0, countdownValue := 0, state := PLAYING,
                 events := events s0 @ [StateUpdate PLAYING]\<rparr>"
    using update_countdown_go [of "s0\<lparr>countdownTimer := 0, countdownValue := 1\<rparr>" 1000] assms
    by simp
  show ?thesis
    by (simp add: Let_def u1 u2 u3 assms)
qed

text \<open>
  C4. start seeds the counter with 3 and sets the state to COUNTDOWN; three update calls
  of 1000 ms each then bring the state to PLAYING, and the state callback is called with
  PLAYING in the third call, the one in which the counter reaches 0, and in no other.
  This holds from the engine as start has set it up, and from the engine as start leaves
  it after the first frame it runs itself, when that frame's elapsed time is less than a
  second.
\<close>

theorem start_then_three_seconds:
  "(let s0 = startSetup d t0 s; u1 = update 1000 s0; u2 = update 1000 u1;
        u3 = update 1000 u2
    in state s0 = COUNTDOWN \<and> countdownValue s0 = 3 \<and>
       events s0 = events s @ [SoundResume, StateUpdate COUNTDOWN, ScoreUpdate 0] \<and>
       state u1 = COUNTDOWN \<and> countdownValue u1 = 2 \<and> events u1 = events s0 \<and>
       state u2 = COUNTDOWN \<and> countdownValue u2 = 1 \<and> events u2 = events s0 \<and>
       state u3 = PLAYING \<and> countdownValue u3 = 0 \<and>
       events u3 = events s0 @ [StateUpdate PLAYING]) \<and>
   (0 \<le> t1 - t0 \<and> t1 - t0 < 1000 \<longrightarrow>
    (let s0 = start d t0 t1 s; u1 = update 1000 s0; u2 = update 1000 u1;
         u3 = update 1000 u2
     in state s0 = COUNTDOWN \<and> countdownValue s0 = 3 \<and>
        events s0 = events s @ [SoundResume, StateUpdate COUNTDOWN, ScoreUpdate 0,
                                Draw, RequestFrame] \<and>
        state u1 = COUNTDOWN \<and> countdownValue u1 = 2 \<and> events u1 = events s0 \<and>
        state u2 = COUNTDOWN \<and> countdownValue u2 = 1 \<and> events u2 = events s0 \<and>
        state u3 = PLAYING \<and> countdownValue u3 = 0 \<and>
        events u3 = events s0 @ [StateUpdate PLAYING]))"
proof -
  have a: "state (startSetup d t0 s) = COUNTDOWN" "countdownValue (startSetup d t0 s) = 3"
    "0 \<le> countdownTimer (startSetup d t0 s)" "countdownTimer (startSetup d t0 s) < 1000"
    by (simp_all add: startSetup_fields)
  have b: "state (start d t0 t1 s) = COUNTDOWN" "countdownValue (start d t0 t1 s) = 3"
    "0 \<le> countdownTimer (start d t0 t1 s)" "countdownTimer (start d t0 t1 s) < 1000"
    if "0 \<le> t1 - t0" "t1 - t0 < 1000"
    using that by (simp_all add: start_fields)
  show ?thesis
    using three_seconds [OF a] three_seconds [OF b]
    by (simp add: Let_def startSetup_fields start_fields)
qed

theorem start_then_three_seconds_witness:
  "(0::real) \<le> 5 - 0 \<and> (5::real) - 0 < 1000 \<and>
   state (update 1000 (update 1000 (update 1000 (start HARD 0 5 idleEngine)))) = PLAYING \<and>
   state (update 1000 (update 1000 (start HARD 0 5 idleEngine))) = COUNTDOWN \<and>
   countdownValue (start HARD 0 5 idleEngine) = 3"
  using start_then_three_seconds [where ?t0.0 = 0 and ?t1.0 = 5 and d = HARD and s = idleEngine]
  by (simp add: Let_def)

section \<open>The formation at the wall\<close>

lemma overlaps_inactive [simp]: "overlaps (b\<lparr>active := False\<rparr>) e = overlaps b e"
  by (simp add: overlaps_def)

lemma shotDown_inactive [simp]: "shotDown (b\<lparr>active := False\<rparr>) e = shotDown b e"
  by (simp add: shotDown_def)

lemma hitEnemies_enemies:
  "fst (snd (hitEnemies b es s))
   = map (\<lambda>e. if shotDown b e then e\<lparr>active := False\<rparr> else e) es"
  by (induction es arbitrary: b s) (simp_all add: case_prod_beta shotDown_def)

lemma collideBullet_enemies:
  "enemies (snd (collideBullet b s))
   = (if active b \<and> isPlayerBullet b
      then map (\<lambda>e. if shotDown b e then e\<lparr>active := False\<rparr> else e) (enemies s)
      else enemies s)"
  by (simp add: collideBullet_def case_prod_beta hitEnemies_enemies hitPlayer_frame)

lemma collideBullet_enemies_y:
  "map ent_y (enemies (snd (collideBullet b s))) = map ent_y (enemies s)"
  by (simp add: collideBullet_enemies comp_def if_distrib cong: if_cong)

lemma collideLoop_enemies_y:
  "map ent_y (enemies (snd (collideLoop bs s))) = map ent_y (enemies s)"
proof (induction bs arbitrary: s)
  case Nil
  show ?case by simp
next
  case (Cons b bs)
  show ?case
    using Cons.IH [of "snd (collideBullet b s)"] collideBullet_enemies_y [of b s]
    by (simp add: case_prod_beta)
qed

lemma collisionDetection_enemies_y:
  "map ent_y (enemies (collisionDetection s)) = map ent_y (enemies s)"
  using collideLoop_enemies_y [of "bullets s" s]
  by (simp add: collisionDetection_def case_prod_beta)

lemma enemyLogic_wall:
  assumes "e \<in> set (enemies s)" and "active e" and "wallHit s (moveEnemy s e)"
  shows "enemyDirection (enemyLogic m s) = enemyDirection s * (- 1)"
    "enemySpeed (enemyLogic m s) = enemySpeed s + 0.2"
    "enemies (enemyLogic m s)
     = map dropEnemy (map (\<lambda>e. if active e then moveEnemy s e else e) (enemies s))"
proof -
  have hw: "fst (snd (enemyLoop m (enemies s) False s))"
    using assms enemyLoop_hitWall [of s s m "enemies s" False] by auto
  have es: "fst (enemyLoop m (enemies s) False s)
            = map (\<lambda>e. if active e then moveEnemy s e else e) (enemies s)"
    by (rule enemyLoop_enemies) simp_all
  note fr = enemyLoop_frame [of m "enemies s" False s]
  show "enemyDirection (enemyLogic m s) = enemyDirection s * (- 1)"
    using hw fr by (simp add: enemyLogic_def case_prod_beta Let_def)
  show "enemySpeed (enemyLogic m s) = enemySpeed s + 0.2"
    using hw fr by (simp add: enemyLogic_def case_prod_beta Let_def)
  show "enemies (enemyLogic m s)
     = map dropEnemy (map (\<lambda>e. if active e then moveEnemy s e else e) (enemies s))"
    using hw es by (simp add: enemyLogic_def case_prod_beta Let_def)
qed

lemma update_playing_alive:
  "state s = PLAYING \<Longrightarrow> e \<in> set (enemies s) \<Longrightarrow> active e \<Longrightarrow>
   update dt s = cleanupArrays (updateParticles (collisionDetection (beforeCollision s)))"
  by (auto simp add: update_def Let_def livingEnemies_def pre_frame filter_empty_conv
      beforeCollision_def)

lemma dropped_y:
  "ent_y (dropEnemy (if active e then moveEnemy s e else e))
   = (if active e then ent_y e + 20 else ent_y e)"
  by (simp add: dropEnemy_def moveEnemy_def ENEMY_DROP_def)

lemma enemyLogic_speed:
  "enemySpeed (enemyLogic m s) = enemySpeed s \<or> enemySpeed (enemyLogic m s) = enemySpeed s + 0.2"
  using enemyLoop_frame [of m "enemies s" False s]
  by (simp add: enemyLogic_def case_prod_beta Let_def)

text \<open>
  The enemy speed is 1 when start has set the engine up, and no update call lowers it;
  so it is never negative in a session.
\<close>

lemma startSetup_enemySpeed: "enemySpeed (startSetup d t0 s) = 1"
  by (simp add: startSetup_def resetEntities_def emit_def Let_def ENEMY_SPEED_BASE_def)

lemma update_enemySpeed_mono: "enemySpeed s \<le> enemySpeed (update dt s)"
  using enemyLogic_speed [of "getDifficultyMultipliers s" "updateBullets (playerShooting (movePlayer s))"]
  by (auto simp add: update_def Let_def emit_def post_frame collisionDetection_frame pre_frame)

text \<open>
  C5. In an update call in PLAYING with the formation moving left (direction -1, speed not
  negative) and an active enemy at x = 0, the call ends with direction +1, with every
  enemy that was active 20 further down, and with the enemy speed 0.2 higher.
\<close>

theorem wall_bounce_left:
  assumes "state s = PLAYING" and "enemyDirection s = - 1" and "0 \<le> enemySpeed s"
    and "e \<in> set (enemies s)" and "active e" and "ent_x e = 0"
  shows "enemyDirection (update dt s) = 1 \<and>
         enemySpeed (update dt s) = enemySpeed s + 0.2 \<and>
         length (enemies (update dt s)) = length (enemies s) \<and>
         (\<forall>i<length (enemies s). active (enemies s ! i) \<longrightarrow>
            ent_y (enemies (update dt s) ! i) = ent_y (enemies s ! i) + 20)"
proof -
  define s3 where "s3 = updateBullets (playerShooting (movePlayer s))"
  have s3: "enemies s3 = enemies s" "enemySpeed s3 = enemySpeed s"
    "enemyDirection s3 = enemyDirection s"
    by (simp_all add: s3_def pre_frame)
  have wh: "wallHit s3 (moveEnemy s3 e)"
    using assms s3 by (simp add: wallHit_def moveEnemy_def)
  have bc: "beforeCollision s = enemyLogic (getDifficultyMultipliers s) s3"
    by (simp add: beforeCollision_def s3_def)
  note wall = enemyLogic_wall [of e s3 "getDifficultyMultipliers s", unfolded s3, OF assms(4,5) wh [unfolded s3]]
  have up: "update dt s = cleanupArrays (updateParticles (collisionDetection (beforeCollision s)))"
    using assms by (intro update_playing_alive)
  have dir: "enemyDirection (update dt s) = 1"
    using wall(1) assms(2) by (simp add: up post_frame collisionDetection_frame bc)
  have spd: "enemySpeed (update dt s) = enemySpeed s + 0.2"
    using wall(2) by (simp add: up post_frame collisionDetection_frame bc)
  have ys: "map ent_y (enemies (update dt s))
            = map (\<lambda>e. if active e then ent_y e + 20 else ent_y e) (enemies s)"
    using wall(3) by (simp add: up post_frame collisionDetection_enemies_y bc comp_def dropped_y)
  have len: "length (enemies (update dt s)) = length (enemies s)"
    using arg_cong [OF ys, of length] by simp
  have "ent_y (enemies (update dt s) ! i) = ent_y (enemies s ! i) + 20"
    if "i < length (enemies s)" "active (enemies s ! i)" for i
    using arg_cong [OF ys, of "\<lambda>l. l ! i"] that len by simp
  with dir spd len show ?thesis by simp
qed

theorem wall_bounce_left_witness:
  "state wallEngine = PLAYING \<and> enemyDirection wallEngine = - 1 \<and> 0 \<le> enemySpeed wallEngine \<and>
   newEnemy 0 0 0 \<in> set (enemies wallEngine) \<and> active (newEnemy 0 0 0) \<and>
   ent_x (newEnemy 0 0 0) = 0 \<and>
   enemyDirection (update 16 wallEngine) = 1 \<and>
   enemySpeed (update 16 wallEngine) = 1 + 0.2 \<and>
   ent_y (enemies (update 16 wallEngine) ! 0) = 80 \<and>
   ent_y (enemies (update 16 wallEngine) ! 2) = 160"
proof -
  have h: "state wallEngine = PLAYING" "enemyDirection wallEngine = - 1"
    "0 \<le> enemySpeed wallEngine" "newEnemy 0 0 0 \<in> set (enemies wallEngine)"
    "active (newEnemy 0 0 0)" "ent_x (newEnemy 0 0 0) = 0"
    by (simp_all add: wallEngine_def playingEngine_def idleEngine_def constructor_def
        newEnemy_def)
  have e: "enemies wallEngine = [newEnemy 0 0 0, (newEnemy 0 1 1)\<lparr>active := False\<rparr>, newEnemy 0 2 2]"
    "enemySpeed wallEngine = 1"
    by (simp_all add: wallEngine_def playingEngine_def idleEngine_def constructor_def)
  note t = wall_bounce_left [OF h, of 16]
  from t have "0 < length (enemies wallEngine) \<longrightarrow> active (enemies wallEngine ! 0) \<longrightarrow>
      ent_y (enemies (update 16 wallEngine) ! 0) = ent_y (enemies wallEngine ! 0) + 20"
    by blast
  moreover from t have "2 < length (enemies wallEngine) \<longrightarrow> active (enemies wallEngine ! 2) \<longrightarrow>
      ent_y (enemies (update 16 wallEngine) ! 2) = ent_y (enemies wallEngine ! 2) + 20"
    by blast
  ultimately show ?thesis
    using h t by (simp add: e newEnemy_def)
qed

section \<open>Victory\<close>

lemma playerShooting_events:
  "events (playerShooting s) = events s \<or> events (playerShooting s) = events s @ [PlayShoot]"
  by (simp add: playerShooting_def Let_def emit_def)

lemma moveBullet_owner [simp]: "isPlayerBullet (moveBullet h b) = isPlayerBullet b"
  by (simp add: moveBullet_def Let_def)

lemma playerShooting_enemy_bullets:
  "filter (\<lambda>b. \<not> isPlayerBullet b) (bullets (playerShooting s))
   = filter (\<lambda>b. \<not> isPlayerBullet b) (bullets s)"
  by (simp add: playerShooting_def Let_def emit_def playerBullet_def)

lemma update_no_enemy:
  assumes "state s = PLAYING" and "\<forall>e\<in>set (enemies s). \<not> active e"
  shows "update dt s
         = emit (StateUpdate VICTORY) ((updateBullets (playerShooting (movePlayer s)))\<lparr>state := VICTORY\<rparr>)"
  using assms by (simp add: update_def Let_def livingEnemies_def pre_frame filter_empty_conv)

text \<open>
  C3. When no enemy is active at the start of an update call in PLAYING, the call sets the
  state to VICTORY and calls the state callback with VICTORY; it fires no enemy bullet
  (the enemy bullets after the call are those before it, moved once, and no random
  number is drawn), and enemies, enemy speed and direction, particles and score are
  untouched.
\<close>

theorem victory_when_formation_cleared:
  assumes "state s = PLAYING" and "\<forall>e\<in>set (enemies s). \<not> active e"
  shows "state (update dt s) = VICTORY \<and>
         (\<exists>shot. (shot = [] \<or> shot = [PlayShoot]) \<and>
            events (update dt s) = events s @ shot @ [StateUpdate VICTORY]) \<and>
         filter (\<lambda>b. \<not> isPlayerBullet b) (bullets (update dt s))
           = map (moveBullet (height s)) (filter (\<lambda>b. \<not> isPlayerBullet b) (bullets s)) \<and>
         rpos (update dt s) = rpos s \<and>
         enemies (update dt s) = enemies s \<and>
         enemySpeed (update dt s) = enemySpeed s \<and>
         enemyDirection (update dt s) = enemyDirection s \<and>
         particles (update dt s) = particles s \<and>
         score (update dt s) = score s"
proof -
  note up = update_no_enemy [OF assms, of dt]
  have ev: "events (update dt s) = events (playerShooting (movePlayer s)) @ [StateUpdate VICTORY]"
    by (simp add: up emit_def updateBullets_def)
  note mv = pre_frame
  have "\<exists>shot. (shot = [] \<or> shot = [PlayShoot]) \<and>
      events (update dt s) = events s @ shot @ [StateUpdate VICTORY]"
    using playerShooting_events [of "movePlayer s"] by (auto simp add: ev mv)
  moreover have "filter (\<lambda>b. \<not> isPlayerBullet b) (bullets (update dt s))
      = map (moveBullet (height s)) (filter (\<lambda>b. \<not> isPlayerBullet b) (bullets s))"
    using playerShooting_enemy_bullets [of "movePlayer s"]
    by (simp add: up emit_def updateBullets_def filter_map comp_def mv pre_frame)
  moreover have "state (update dt s) = VICTORY" "rpos (update dt s) = rpos s"
    "enemies (update dt s) = enemies s" "enemySpeed (update dt s) = enemySpeed s"
    "enemyDirection (update dt s) = enemyDirection s" "particles (update dt s) = particles s"
    "score (update dt s) = score s"
    by (simp_all add: up emit_def pre_frame)
  ultimately show ?thesis by simp
qed

theorem victory_when_formation_cleared_witness:
  "state clearedEngine = PLAYING \<and>
   state (update 16 clearedEngine) = VICTORY \<and>
   rpos (update 16 clearedEngine) = rpos clearedEngine \<and>
   length (filter (\<lambda>b. \<not> isPlayerBullet b) (bullets (update 16 clearedEngine))) = 1"
proof -
  have h: "state clearedEngine = PLAYING" "\<forall>e\<in>set (enemies clearedEngine). \<not> active e"
    by (simp_all add: clearedEngine_def playingEngine_def idleEngine_def constructor_def)
  have b: "length (filter (\<lambda>b. \<not> isPlayerBullet b) (bullets clearedEngine)) = 1"
    by (simp add: clearedEngine_def enemyBullet_def)
  from victory_when_formation_cleared [OF h, of 16] h(1) b show ?thesis
    by simp
qed

section \<open>A player bullet among the enemies\<close>



lemma shotDown_inactive_fun [simp]: "shotDown (b\<lparr>active := False\<rparr>) = shotDown b"
  by (simp add: fun_eq_iff)

lemma spawnParticles_length:
  "length (particles (spawnParticles px py c n s)) = length (particles s) + n"
  by (induction n arbitrary: s) (simp_all add: spawnParticle_def Let_def advance_def)

lemma killEnemy_effect:
  "score (killEnemy e s) = score s + 100"
  "events (killEnemy e s) = events s @ [PlayExplosion, ScoreUpdate (score s + 100)]"
  "length (particles (killEnemy e s)) = length (particles s) + 25"
  by (simp_all add: killEnemy_def Let_def emit_def spawnParticles_frame spawnParticles_length)

lemma hitEnemies_effect:
  "score (snd (snd (hitEnemies b es s))) = score s + 100 * real (length (filter (shotDown b) es)) \<and>
   (\<exists>evs. events (snd (snd (hitEnemies b es s))) = events s @ evs \<and>
      length (filter isScoreUpdate evs) = length (filter (shotDown b) es) \<and>
      length evs = 2 * length (filter (shotDown b) es)) \<and>
   length (particles (snd (snd (hitEnemies b es s))))
     = length (particles s) + 25 * length (filter (shotDown b) es)"
proof (induction es arbitrary: b s)
  case Nil
  show ?case by simp
next
  case (Cons e es)
  show ?case
  proof (cases "shotDown b e")
    case True
    define b' where "b' = b\<lparr>active := False\<rparr>"
    define k where "k = length (filter (shotDown b) es)"
    have k: "length (filter (shotDown b') es) = k"
      by (simp add: b'_def k_def)
    have step: "snd (snd (hitEnemies b (e # es) s)) = snd (snd (hitEnemies b' es (killEnemy e s)))"
      using True by (simp add: shotDown_def case_prod_beta b'_def)
    from Cons.IH [of b' "killEnemy e s"] obtain evs where
      sc: "score (snd (snd (hitEnemies b' es (killEnemy e s)))) = score (killEnemy e s) + 100 * real k"
      and ev: "events (snd (snd (hitEnemies b' es (killEnemy e s)))) = events (killEnemy e s) @ evs"
      and n: "length (filter isScoreUpdate evs) = k" "length evs = 2 * k"
      and pa: "length (particles (snd (snd (hitEnemies b' es (killEnemy e s)))))
               = length (particles (killEnemy e s)) + 25 * k"
      unfolding k by blast
    have "events (snd (snd (hitEnemies b (e # es) s)))
          = events s @ ([PlayExplosion, ScoreUpdate (score s + 100)] @ evs)"
      unfolding step by (simp add: ev killEnemy_effect)
    moreover have "length (filter isScoreUpdate ([PlayExplosion, ScoreUpdate (score s + 100)] @ evs)) = Suc k"
      "length ([PlayExplosion, ScoreUpdate (score s + 100)] @ evs) = 2 * Suc k"
      using n by (simp_all add: isScoreUpdate_def)
    ultimately have "\<exists>evs. events (snd (snd (hitEnemies b (e # es) s))) = events s @ evs \<and>
      length (filter isScoreUpdate evs) = Suc k \<and> length evs = 2 * Suc k"
      by blast
    moreover have "score (snd (snd (hitEnemies b (e # es) s))) = score s + 100 * real (Suc k)"
      unfolding step by (simp add: sc killEnemy_effect algebra_simps)
    moreover have "length (particles (snd (snd (hitEnemies b (e # es) s))))
          = length (particles s) + 25 * Suc k"
      unfolding step by (simp add: pa killEnemy_effect)
    moreover have "length (filter (shotDown b) (e # es)) = Suc k"
      using True by (simp add: k_def)
    ultimately show ?thesis by simp
  next
    case False
    have step: "snd (snd (hitEnemies b (e # es) s)) = snd (snd (hitEnemies b es s))"
      using False by (auto simp add: shotDown_def case_prod_beta)
    show ?thesis
      unfolding step using Cons.IH [of b s] False by simp
  qed
qed

lemma hitEnemies_bullet:
  "active (fst (hitEnemies b es s)) = (active b \<and> filter (shotDown b) es = [])"
proof (induction es arbitrary: b s)
  case Nil
  show ?case by simp
next
  case (Cons e es)
  show ?case
    using Cons.IH [of b s] Cons.IH [of "b\<lparr>active := False\<rparr>" "killEnemy e s"]
    by (simp add: case_prod_beta shotDown_def)
qed

lemma collideBullet_player_bullet:
  "active b \<Longrightarrow> isPlayerBullet b \<Longrightarrow>
   collideBullet b s
   = (fst (hitEnemies b (enemies s) s),
      (snd (snd (hitEnemies b (enemies s) s)))\<lparr>enemies := fst (snd (hitEnemies b (enemies s) s))\<rparr>)"
  by (simp add: collideBullet_def case_prod_beta)

lemma collideBullet_kills:
  assumes "active b" and "isPlayerBullet b"
  shows "enemies (snd (collideBullet b s))
           = map (\<lambda>e. if active e \<and> overlaps b e then e\<lparr>active := False\<rparr> else e) (enemies s) \<and>
         score (snd (collideBullet b s))
           = score s + 100 * real (length (filter (\<lambda>e. active e \<and> overlaps b e) (enemies s))) \<and>
         (\<exists>evs. events (snd (collideBullet b s)) = events s @ evs \<and>
            length (filter isScoreUpdate evs)
              = length (filter (\<lambda>e. active e \<and> overlaps b e) (enemies s))) \<and>
         length (particles (snd (collideBullet b s)))
           = length (particles s) + 25 * length (filter (\<lambda>e. active e \<and> overlaps b e) (enemies s)) \<and>
         active (fst (collideBullet b s))
           = (filter (\<lambda>e. active e \<and> overlaps b e) (enemies s) = [])"
proof -
  have sd: "shotDown b = (\<lambda>e. active e \<and> overlaps b e)"
    by (simp add: shotDown_def fun_eq_iff)
  note cb = collideBullet_player_bullet [OF assms, of s]
  from hitEnemies_effect [of b "enemies s" s] obtain evs where
    "events (snd (snd (hitEnemies b (enemies s) s))) = events s @ evs"
    "length (filter isScoreUpdate evs) = length (filter (shotDown b) (enemies s))"
    by blast
  then have "\<exists>evs. events (snd (collideBullet b s)) = events s @ evs \<and>
      length (filter isScoreUpdate evs) = length (filter (shotDown b) (enemies s))"
    by (simp add: cb)
  moreover have "enemies (snd (collideBullet b s))
      = map (\<lambda>e. if shotDown b e then e\<lparr>active := False\<rparr> else e) (enemies s)"
    using assms by (simp add: collideBullet_enemies)
  moreover have "score (snd (collideBullet b s))
      = score s + 100 * real (length (filter (shotDown b) (enemies s)))"
    "length (particles (snd (collideBullet b s)))
      = length (particles s) + 25 * length (filter (shotDown b) (enemies s))"
    using hitEnemies_effect [of b "enemies s" s] by (simp_all add: cb)
  moreover have "active (fst (collideBullet b s)) = (filter (shotDown b) (enemies s) = [])"
    using assms(1) by (simp add: cb hitEnemies_bullet)
  ultimately show ?thesis
    unfolding sd by simp
qed

section \<open>Particle bursts\<close>

lemma spawnParticle_eq:
  "spawnParticle px py c s
   = s\<lparr>rpos := rpos s + (if rnd s (rpos s + 2) > 0.3 then 5 else 4),
       particles := particles s @ [particleAt px py c (rnd s) (rpos s)]\<rparr>"
  by (simp add: spawnParticle_def particleAt_def Let_def advance_def nextRandom_def
      eval_nat_numeral)

lemma spawnParticles_new:
  "\<exists>ps. particles (spawnParticles px py c n s) = particles s @ ps \<and> length ps = n \<and>
     (\<forall>p\<in>set ps. \<exists>i\<ge>rpos s. p = particleAt px py c (rnd s) i)"
proof (induction n arbitrary: s)
  case 0
  show ?case by simp
next
  case (Suc n)
  define t where "t = spawnParticle px py c s"
  have t: "rnd t = rnd s" "rpos s \<le> rpos t"
    "particles t = particles s @ [particleAt px py c (rnd s) (rpos s)]"
    by (simp_all add: t_def spawnParticle_eq)
  from Suc.IH [of t] obtain ps where
    ps: "particles (spawnParticles px py c n t) = particles t @ ps" "length ps = n"
      "\<forall>p\<in>set ps. \<exists>i\<ge>rpos t. p = particleAt px py c (rnd t) i"
    by blast
  have "particles (spawnParticles px py c (Suc n) s)
        = particles s @ (particleAt px py c (rnd s) (rpos s) # ps)"
    by (simp add: t_def [symmetric] ps t)
  moreover have "length (particleAt px py c (rnd s) (rpos s) # ps) = Suc n"
    by (simp add: ps)
  moreover have "\<forall>p\<in>set (particleAt px py c (rnd s) (rpos s) # ps).
      \<exists>i\<ge>rpos s. p = particleAt px py c (rnd s) i"
    using ps(3) t(1,2) by (auto intro: order_trans)
  ultimately show ?case by blast
qed

lemma floor_quarter:
  assumes "0 \<le> r" and "r < 1"
  shows "0 \<le> \<lfloor>r * 4\<rfloor>" "\<lfloor>r * 4\<rfloor> < 4" "nat \<lfloor>r * 4\<rfloor> < length fireColors"
proof -
  show a: "0 \<le> \<lfloor>r * 4\<rfloor>" and b: "\<lfloor>r * 4\<rfloor> < 4"
    using assms by (simp_all add: floor_less_iff)
  have "length fireColors = 4"
    by (simp add: fireColors_def)
  with a b show "nat \<lfloor>r * 4\<rfloor> < length fireColors"
    by linarith
qed

lemma particleColor_in_range:
  assumes "0 \<le> r'" and "r' < 1"
  shows "particleColor c r r' = (if r \<le> 0.3 then c else fireColors ! nat \<lfloor>r' * 4\<rfloor>)"
  using floor_quarter(1,2) [OF assms] by (simp add: particleColor_def fireColorAt_def fireColors_def)

text \<open>
  C1, amended. With every random draw in [0, 1), spawnParticles appends exactly count
  particles, each at (x, y) with height 0, active, life and maxLife 45, radius
  5 r + 2 in [2, 7), direction 2 pi r in [0, 2 pi) and speed 4 r + 1 in [1, 5) for draws
  r of the stream; its colour is baseColor when the colour draw is at most 0.3
  (probability 0.3) and otherwise the palette entry at the floor of 4 r for a further
  draw r (each of the four colours with the same probability).
\<close>

theorem spawnParticles_burst:
  assumes "\<forall>n. 0 \<le> rnd s n \<and> rnd s n < 1"
  shows "\<exists>ps. particles (spawnParticles px py baseColor count s) = particles s @ ps \<and>
     length ps = count \<and>
     (\<forall>p\<in>set ps.
        ent_x p = px \<and> ent_y p = py \<and> ent_height p = 0 \<and> active p \<and>
        life p = 45 \<and> maxLife p = 45 \<and> 2 \<le> ent_width p \<and> ent_width p < 7 \<and>
        (\<exists>i\<ge>rpos s.
           (let angle = rnd s i * pi * 2; speed = rnd s (i + 1) * 4 + 1
            in 0 \<le> angle \<and> angle < 2 * pi \<and> 1 \<le> speed \<and> speed < 5 \<and>
               dx p = cos angle * speed \<and> dy p = sin angle * speed) \<and>
           ent_width p = rnd s (i + (if rnd s (i + 2) \<le> 0.3 then 3 else 4)) * 5 + 2 \<and>
           color p = (if rnd s (i + 2) \<le> 0.3 then baseColor
                      else fireColors ! nat \<lfloor>rnd s (i + 3) * 4\<rfloor>) \<and>
           nat \<lfloor>rnd s (i + 3) * 4\<rfloor> < length fireColors))"
proof -
  from spawnParticles_new [of px py baseColor count s] obtain ps where
    ps: "particles (spawnParticles px py baseColor count s) = particles s @ ps"
      "length ps = count"
      "\<forall>p\<in>set ps. \<exists>i\<ge>rpos s. p = particleAt px py baseColor (rnd s) i"
    by blast
  have r: "0 \<le> rnd s n" "rnd s n < 1" for n
    using assms by simp_all
  have each: "ent_x p = px \<and> ent_y p = py \<and> ent_height p = 0 \<and> active p \<and>
        life p = 45 \<and> maxLife p = 45 \<and> 2 \<le> ent_width p \<and> ent_width p < 7 \<and>
        (\<exists>i\<ge>rpos s.
           (let angle = rnd s i * pi * 2; speed = rnd s (i + 1) * 4 + 1
            in 0 \<le> angle \<and> angle < 2 * pi \<and> 1 \<le> speed \<and> speed < 5 \<and>
               dx p = cos angle * speed \<and> dy p = sin angle * speed) \<and>
           ent_width p = rnd s (i + (if rnd s (i + 2) \<le> 0.3 then 3 else 4)) * 5 + 2 \<and>
           color p = (if rnd s (i + 2) \<le> 0.3 then baseColor
                      else fireColors ! nat \<lfloor>rnd s (i + 3) * 4\<rfloor>) \<and>
           nat \<lfloor>rnd s (i + 3) * 4\<rfloor> < length fireColors)"
    if "p \<in> set ps" for p
  proof -
    from ps(3) that obtain i where i: "rpos s \<le> i" and p: "p = particleAt px py baseColor (rnd s) i"
      by blast
    have w: "2 \<le> ent_width p" "ent_width p < 7"
      using r [of "i + 3"] r [of "i + 4"] by (simp_all add: p particleAt_def)
    have flat: "ent_x p = px" "ent_y p = py" "ent_height p = 0" "active p"
      "life p = 45" "maxLife p = 45"
      by (simp_all add: p particleAt_def PARTICLE_LIFE_def)
    have ang: "0 \<le> rnd s i * pi * 2" "rnd s i * pi * 2 < 2 * pi"
      using r [of i] by simp_all
    have spd: "1 \<le> rnd s (i + 1) * 4 + 1" "rnd s (i + 1) * 4 + 1 < 5"
      using r [of "i + 1"] by simp_all
    have vel: "dx p = cos (rnd s i * pi * 2) * (rnd s (i + 1) * 4 + 1)"
      "dy p = sin (rnd s i * pi * 2) * (rnd s (i + 1) * 4 + 1)"
      by (simp_all add: p particleAt_def)
    have wd: "ent_width p = rnd s (i + (if rnd s (i + 2) \<le> 0.3 then 3 else 4)) * 5 + 2"
      by (simp add: p particleAt_def not_less [symmetric])
    have col: "color p = (if rnd s (i + 2) \<le> 0.3 then baseColor
                      else fireColors ! nat \<lfloor>rnd s (i + 3) * 4\<rfloor>)"
      using particleColor_in_range [OF r(1) [of "i + 3"] r(2) [of "i + 3"], of baseColor "rnd s (i + 2)"]
      by (simp add: p particleAt_def)
    have idx: "nat \<lfloor>rnd s (i + 3) * 4\<rfloor> < length fireColors"
      by (rule floor_quarter(3) [OF r(1) [of "i + 3"] r(2) [of "i + 3"]])
    from i ang spd vel wd col idx have
      "\<exists>i\<ge>rpos s.
           (let angle = rnd s i * pi * 2; speed = rnd s (i + 1) * 4 + 1
            in 0 \<le> angle \<and> angle < 2 * pi \<and> 1 \<le> speed \<and> speed < 5 \<and>
               dx p = cos angle * speed \<and> dy p = sin angle * speed) \<and>
           ent_width p = rnd s (i + (if rnd s (i + 2) \<le> 0.3 then 3 else 4)) * 5 + 2 \<and>
           color p = (if rnd s (i + 2) \<le> 0.3 then baseColor
                      else fireColors ! nat \<lfloor>rnd s (i + 3) * 4\<rfloor>) \<and>
           nat \<lfloor>rnd s (i + 3) * 4\<rfloor> < length fireColors"
      unfolding Let_def by blast
    with flat w show ?thesis by blast
  qed
  from ps(1,2) each show ?thesis by blast
qed

theorem spawnParticles_burst_witness:
  "(\<forall>n. 0 \<le> rnd idleEngine n \<and> rnd idleEngine n < 1) \<and>
   (\<exists>ps. particles (spawnParticles 400 300 ''#39ff14'' 25 idleEngine) = particles idleEngine @ ps \<and>
      length ps = 25)"
proof -
  have h: "\<forall>n. 0 \<le> rnd idleEngine n \<and> rnd idleEngine n < 1"
    by (simp add: idleEngine_def constructor_def)
  from spawnParticles_burst [OF h, of 400 300 "''#39ff14''" 25] h show ?thesis
    by blast
qed

lemma colour_of_draw:
  "color (hd (particles (spawnParticles 0 0 ''#39ff14'' 1 (colourDrawEngine r))))
   = (if r > 0.3 then ''#ffffff'' else ''#39ff14'')"
  by (simp add: spawnParticle_eq particleAt_def particleColor_def fireColorAt_def
      fireColors_def colourDrawEngine_def idleEngine_def constructor_def)

text \<open>
  C1 as stated fails: the colour draws in [0, 1) that keep the base colour are those of
  [0, 0.3], which is no interval of length 0.7; the draw 0.5 gives a palette colour.
\<close>

theorem base_colour_probability_counterexample:
  "color (hd (particles (spawnParticles 0 0 ''#39ff14'' 1 (colourDrawEngine (1 / 2))))) = ''#ffffff'' \<and>
   \<not> (\<exists>a b. b - a = 7 / 10 \<and>
        {a<..<b} \<subseteq> {r. 0 \<le> r \<and> r < 1 \<and>
           color (hd (particles (spawnParticles 0 0 ''#39ff14'' 1 (colourDrawEngine r)))) = ''#39ff14''} \<and>
        {r. 0 \<le> r \<and> r < 1 \<and>
           color (hd (particles (spawnParticles 0 0 ''#39ff14'' 1 (colourDrawEngine r)))) = ''#39ff14''}
          \<subseteq> {a..b})"
proof -
  have S: "{r. 0 \<le> r \<and> r < 1 \<and>
           color (hd (particles (spawnParticles 0 0 ''#39ff14'' 1 (colourDrawEngine r)))) = ''#39ff14''}
        = {r. 0 \<le> r \<and> r \<le> 3 / 10}"
    unfolding colour_of_draw by auto
  have "False" if ab: "b - a = 7 / 10" and sub: "{a<..<b} \<subseteq> {r. 0 \<le> r \<and> r \<le> 3 / 10}"
    for a b :: real
  proof -
    have inside: "0 \<le> x \<and> x \<le> 3 / 10" if "a < x" "x < b" for x
      using sub that by (simp add: subset_eq)
    have "0 \<le> a + 1 / 10" "a + 6 / 10 \<le> 3 / 10"
      using inside [of "a + 1 / 10"] inside [of "a + 6 / 10"] ab by simp_all
    then show False by simp
  qed
  then have "\<not> (\<exists>a b. b - a = 7 / 10 \<and> {a<..<b} \<subseteq> {r::real. 0 \<le> r \<and> r \<le> 3 / 10} \<and>
        {r. 0 \<le> r \<and> r \<le> 3 / 10} \<subseteq> {a..b})"
    by blast
  moreover have "color (hd (particles (spawnParticles 0 0 ''#39ff14'' 1 (colourDrawEngine (1 / 2)))))
      = ''#ffffff''"
    unfolding colour_of_draw by simp
  ultimately show ?thesis
    unfolding S by blast
qed

section \<open>The collision loop\<close>

lemma hitPlayer_effect:
  "events (hitPlayer t) = events t @ [PlayExplosion, StateUpdate GAME_OVER]"
  "\<exists>ps. particles (hitPlayer t) = particles t @ ps \<and> length ps = 40 \<and>
     (\<forall>q\<in>set ps. ent_x q = ent_x (player t) + ent_width (player t) / 2 \<and>
        ent_y q = ent_y (player t) + ent_height (player t) / 2 \<and>
        (\<exists>r r'. color q = particleColor (color (player t)) r r'))"
proof -
  show "events (hitPlayer t) = events t @ [PlayExplosion, StateUpdate GAME_OVER]"
    by (simp add: hitPlayer_def Let_def emit_def spawnParticles_frame)
  define px where "px = ent_x (player t) + ent_width (player t) / 2"
  define py where "py = ent_y (player t) + ent_height (player t) / 2"
  define t1 where "t1 = emit PlayExplosion t"
  from spawnParticles_new [of px py "color (player t)" 40 t1] obtain ps where
    ps: "particles (spawnParticles px py (color (player t)) 40 t1) = particles t1 @ ps"
      "length ps = 40"
      "\<forall>p\<in>set ps. \<exists>i\<ge>rpos t1. p = particleAt px py (color (player t)) (rnd t1) i"
    by blast
  have "particles (hitPlayer t) = particles t @ ps"
    using ps(1) by (simp add: hitPlayer_def Let_def emit_def px_def py_def t1_def)
  moreover have "\<forall>q\<in>set ps. ent_x q = px \<and> ent_y q = py \<and>
      (\<exists>r r'. color q = particleColor (color (player t)) r r')"
    using ps(3) by (fastforce simp add: particleAt_def)
  ultimately show "\<exists>ps. particles (hitPlayer t) = particles t @ ps \<and> length ps = 40 \<and>
     (\<forall>q\<in>set ps. ent_x q = ent_x (player t) + ent_width (player t) / 2 \<and>
        ent_y q = ent_y (player t) + ent_height (player t) / 2 \<and>
        (\<exists>r r'. color q = particleColor (color (player t)) r r'))"
    using ps(2) unfolding px_def py_def by blast
qed

lemma collideLoop_append:
  "collideLoop (xs @ ys) s
   = (fst (collideLoop xs s) @ fst (collideLoop ys (snd (collideLoop xs s))),
      snd (collideLoop ys (snd (collideLoop xs s))))"
  by (induction xs arbitrary: s) (simp_all add: case_prod_beta)

lemma collideLoop_length: "length (fst (collideLoop bs s)) = length bs"
  by (induction bs arbitrary: s) (simp_all add: case_prod_beta)

lemma collideLoop_split:
  assumes "i < length bs"
  shows "fst (collideLoop bs s) ! i = fst (collideBullet (bs ! i) (snd (collideLoop (take i bs) s)))"
    and "snd (collideLoop bs s)
         = snd (collideLoop (drop (Suc i) bs)
             (snd (collideBullet (bs ! i) (snd (collideLoop (take i bs) s)))))"
proof -
  have bs: "bs = take i bs @ (bs ! i # drop (Suc i) bs)"
    using assms by (simp add: id_take_nth_drop [symmetric])
  have len: "length (fst (collideLoop (take i bs) s)) = i"
    using assms by (simp add: collideLoop_length)
  have "collideLoop bs s = collideLoop (take i bs @ (bs ! i # drop (Suc i) bs)) s"
    using bs by simp
  then have eq: "collideLoop bs s
      = (fst (collideLoop (take i bs) s)
           @ fst (collideLoop (bs ! i # drop (Suc i) bs) (snd (collideLoop (take i bs) s))),
         snd (collideLoop (bs ! i # drop (Suc i) bs) (snd (collideLoop (take i bs) s))))"
    by (simp only: collideLoop_append)
  show "fst (collideLoop bs s) ! i
        = fst (collideBullet (bs ! i) (snd (collideLoop (take i bs) s)))"
    unfolding eq using len by (simp add: nth_append case_prod_beta)
  show "snd (collideLoop bs s)
         = snd (collideLoop (drop (Suc i) bs)
             (snd (collideBullet (bs ! i) (snd (collideLoop (take i bs) s)))))"
    unfolding eq by (simp add: case_prod_beta)
qed

lemma collideBullet_state_over:
  "state s = GAME_OVER \<Longrightarrow> state (snd (collideBullet b s)) = GAME_OVER"
  using hitEnemies_frame [of b "enemies s" s]
  by (simp add: collideBullet_def case_prod_beta hitPlayer_frame)

lemma collideLoop_state_over:
  "state s = GAME_OVER \<Longrightarrow> state (snd (collideLoop bs s)) = GAME_OVER"
  by (induction bs arbitrary: s) (simp_all add: case_prod_beta collideBullet_state_over)

lemma collideBullet_enemy_bullet:
  "active b \<Longrightarrow> \<not> isPlayerBullet b \<Longrightarrow> overlaps b (player s) \<Longrightarrow>
   collideBullet b s = (b\<lparr>active := False\<rparr>, hitPlayer s)"
  by (simp add: collideBullet_def)

lemma fold_update_over:
  "state s = GAME_OVER \<Longrightarrow> fold update dts s = s"
  by (induction dts) (simp_all add: update_idle)

lemma shot_count:
  "length (filter active es)
   = length (filter active (map (\<lambda>e. if shotDown b e then e\<lparr>active := False\<rparr> else e) es))
     + length (filter (shotDown b) es)"
  by (induction es) (auto simp add: shotDown_def)

lemma killEnemy_particles: "\<exists>ps. particles (killEnemy e s) = particles s @ ps"
  using spawnParticles_new [of "ent_x e + ent_width e / 2" "ent_y e + ent_height e / 2"
      "color e" 25 "emit PlayExplosion s"]
  by (auto simp add: killEnemy_def Let_def emit_def)

lemma hitEnemies_particles:
  "\<exists>ps. particles (snd (snd (hitEnemies b es s))) = particles s @ ps"
proof (induction es arbitrary: b s)
  case Nil
  show ?case by simp
next
  case (Cons e es)
  show ?case
  proof (cases "shotDown b e")
    case True
    then have step: "snd (snd (hitEnemies b (e # es) s))
        = snd (snd (hitEnemies (b\<lparr>active := False\<rparr>) es (killEnemy e s)))"
      by (simp add: shotDown_def case_prod_beta)
    from killEnemy_particles [of e s] obtain p1 where
      p1: "particles (killEnemy e s) = particles s @ p1" by blast
    from Cons.IH [of "b\<lparr>active := False\<rparr>" "killEnemy e s"] obtain p2 where
      "particles (snd (snd (hitEnemies (b\<lparr>active := False\<rparr>) es (killEnemy e s))))
       = particles (killEnemy e s) @ p2" by blast
    then have "particles (snd (snd (hitEnemies b (e # es) s))) = particles s @ (p1 @ p2)"
      unfolding step by (simp add: p1)
    then show ?thesis by blast
  next
    case False
    then have step: "snd (snd (hitEnemies b (e # es) s)) = snd (snd (hitEnemies b es s))"
      by (auto simp add: shotDown_def case_prod_beta)
    show ?thesis unfolding step by (rule Cons.IH)
  qed
qed

text \<open>In the collision loop the event list and the particle list only grow.\<close>

lemma collideBullet_grows:
  "\<exists>evs ps. events (snd (collideBullet b s)) = events s @ evs \<and>
     particles (snd (collideBullet b s)) = particles s @ ps"
proof -
  from hitEnemies_effect [of b "enemies s" s] obtain evs where
    e: "events (snd (snd (hitEnemies b (enemies s) s))) = events s @ evs" by blast
  from hitEnemies_particles [of b "enemies s" s] obtain ps where
    p: "particles (snd (snd (hitEnemies b (enemies s) s))) = particles s @ ps" by blast
  from hitPlayer_effect(2) [of s] obtain qs where
    q: "particles (hitPlayer s) = particles s @ qs" by blast
  show ?thesis
    using e p q hitPlayer_effect(1) [of s]
    by (simp add: collideBullet_def case_prod_beta)
qed

lemma collideLoop_grows:
  "\<exists>evs ps. events (snd (collideLoop bs s)) = events s @ evs \<and>
     particles (snd (collideLoop bs s)) = particles s @ ps"
proof (induction bs arbitrary: s)
  case Nil
  show ?case by simp
next
  case (Cons b bs)
  from collideBullet_grows [of b s] obtain e1 p1 where
    a: "events (snd (collideBullet b s)) = events s @ e1"
      "particles (snd (collideBullet b s)) = particles s @ p1" by blast
  from Cons.IH [of "snd (collideBullet b s)"] obtain e2 p2 where
    b: "events (snd (collideLoop bs (snd (collideBullet b s)))) = events (snd (collideBullet b s)) @ e2"
      "particles (snd (collideLoop bs (snd (collideBullet b s)))) = particles (snd (collideBullet b s)) @ p2"
    by blast
  have "events (snd (collideLoop (b # bs) s)) = events s @ (e1 @ e2)"
    "particles (snd (collideLoop (b # bs) s)) = particles s @ (p1 @ p2)"
    by (simp_all add: case_prod_beta a b)
  then show ?case by blast
qed

text \<open>
  Every turn of the collision loop adds 100 to the score and one call of the score
  callback for each enemy it deactivates.
\<close>

lemma collideBullet_account:
  "\<exists>K. length (filter active (enemies s))
          = length (filter active (enemies (snd (collideBullet b s)))) + K \<and>
        score (snd (collideBullet b s)) = score s + 100 * real K \<and>
        length (filter isScoreUpdate (events (snd (collideBullet b s))))
          = length (filter isScoreUpdate (events s)) + K"
proof (cases "active b \<and> isPlayerBullet b")
  case True
  then have b: "active b" "isPlayerBullet b" by simp_all
  define k where "k = length (filter (shotDown b) (enemies s))"
  note cb = collideBullet_player_bullet [OF b, of s]
  from hitEnemies_effect [of b "enemies s" s] obtain evs where
    sc: "score (snd (snd (hitEnemies b (enemies s) s))) = score s + 100 * real k"
    and ev: "events (snd (snd (hitEnemies b (enemies s) s))) = events s @ evs"
      "length (filter isScoreUpdate evs) = k"
    unfolding k_def by blast
  have "length (filter active (enemies s))
        = length (filter active (enemies (snd (collideBullet b s)))) + k"
    using b shot_count [of "enemies s" b] by (simp add: collideBullet_enemies k_def)
  moreover have "score (snd (collideBullet b s)) = score s + 100 * real k"
    by (simp add: cb sc)
  moreover have "length (filter isScoreUpdate (events (snd (collideBullet b s))))
        = length (filter isScoreUpdate (events s)) + k"
    by (simp add: cb ev)
  ultimately show ?thesis by blast
next
  case False
  then have "enemies (snd (collideBullet b s)) = enemies s"
    "score (snd (collideBullet b s)) = score s"
    "length (filter isScoreUpdate (events (snd (collideBullet b s))))
        = length (filter isScoreUpdate (events s))"
    using hitPlayer_effect(1) [of s]
    by (auto simp add: collideBullet_def hitPlayer_frame isScoreUpdate_def)
  then show ?thesis by simp
qed

lemma collideLoop_account:
  "\<exists>K. length (filter active (enemies s))
          = length (filter active (enemies (snd (collideLoop bs s)))) + K \<and>
        score (snd (collideLoop bs s)) = score s + 100 * real K \<and>
        length (filter isScoreUpdate (events (snd (collideLoop bs s))))
          = length (filter isScoreUpdate (events s)) + K"
proof (induction bs arbitrary: s)
  case Nil
  show ?case by simp
next
  case (Cons b bs)
  define s1 where "s1 = snd (collideBullet b s)"
  from collideBullet_account [of s b] obtain K1 where
    a: "length (filter active (enemies s)) = length (filter active (enemies s1)) + K1"
      "score s1 = score s + 100 * real K1"
      "length (filter isScoreUpdate (events s1)) = length (filter isScoreUpdate (events s)) + K1"
    unfolding s1_def by blast
  from Cons.IH [of s1] obtain K2 where
    b: "length (filter active (enemies s1))
        = length (filter active (enemies (snd (collideLoop bs s1)))) + K2"
      "score (snd (collideLoop bs s1)) = score s1 + 100 * real K2"
      "length (filter isScoreUpdate (events (snd (collideLoop bs s1))))
        = length (filter isScoreUpdate (events s1)) + K2"
    by blast
  have step: "snd (collideLoop (b # bs) s) = snd (collideLoop bs s1)"
    by (simp add: case_prod_beta s1_def)
  have "length (filter active (enemies s))
          = length (filter active (enemies (snd (collideLoop (b # bs) s)))) + (K1 + K2)"
    "score (snd (collideLoop (b # bs) s)) = score s + 100 * real (K1 + K2)"
    "length (filter isScoreUpdate (events (snd (collideLoop (b # bs) s))))
          = length (filter isScoreUpdate (events s)) + (K1 + K2)"
    unfolding step using a b by simp_all
  then show ?case by blast
qed

text \<open>Bullets that are not active player bullets deactivate no enemy and score nothing.\<close>

lemma collideLoop_idle:
  assumes "\<forall>b\<in>set bs. \<not> (active b \<and> isPlayerBullet b)"
  shows "enemies (snd (collideLoop bs s)) = enemies s \<and>
         score (snd (collideLoop bs s)) = score s \<and>
         length (filter isScoreUpdate (events (snd (collideLoop bs s))))
           = length (filter isScoreUpdate (events s))"
  using assms
proof (induction bs arbitrary: s)
  case Nil
  show ?case by simp
next
  case (Cons b bs)
  from Cons.prems have nb: "\<not> (active b \<and> isPlayerBullet b)" by simp
  then have one: "enemies (snd (collideBullet b s)) = enemies s"
    "score (snd (collideBullet b s)) = score s"
    "length (filter isScoreUpdate (events (snd (collideBullet b s))))
        = length (filter isScoreUpdate (events s))"
    using hitPlayer_effect(1) [of s]
    by (auto simp add: collideBullet_def hitPlayer_frame isScoreUpdate_def)
  from Cons.prems have "\<forall>b\<in>set bs. \<not> (active b \<and> isPlayerBullet b)" by simp
  from Cons.IH [OF this, of "snd (collideBullet b s)"] one show ?case
    by (simp add: case_prod_beta)
qed

text \<open>An enemy that is inactive stays inactive through the collision loop.\<close>

lemma collideBullet_dead:
  "length (enemies (snd (collideBullet b s))) = length (enemies s) \<and>
   (\<forall>j<length (enemies s). \<not> active (enemies s ! j)
      \<longrightarrow> \<not> active (enemies (snd (collideBullet b s)) ! j))"
  by (simp add: collideBullet_enemies)

lemma collideLoop_dead:
  "length (enemies (snd (collideLoop bs s))) = length (enemies s) \<and>
   (\<forall>j<length (enemies s). \<not> active (enemies s ! j)
      \<longrightarrow> \<not> active (enemies (snd (collideLoop bs s)) ! j))"
proof (induction bs arbitrary: s)
  case Nil
  show ?case by simp
next
  case (Cons b bs)
  show ?case
    using Cons.IH [of "snd (collideBullet b s)"] collideBullet_dead [of b s]
    by (simp add: case_prod_beta)
qed

lemma enemyEffects_events:
  "\<exists>evs. events (enemyEffects m e s) = events s @ evs \<and> filter isScoreUpdate evs = []"
  by (simp add: enemyEffects_def Let_def emit_def advance_def isScoreUpdate_def)

lemma enemyLoop_events:
  "\<exists>evs. events (snd (snd (enemyLoop m es hw s))) = events s @ evs \<and>
     filter isScoreUpdate evs = []"
proof (induction es arbitrary: hw s)
  case Nil
  show ?case by simp
next
  case (Cons e es)
  show ?case
  proof (cases "active e")
    case True
    define s1 where "s1 = enemyEffects m (moveEnemy s e) s"
    from enemyEffects_events [of m "moveEnemy s e" s] obtain e1 where
      a: "events s1 = events s @ e1" "filter isScoreUpdate e1 = []"
      unfolding s1_def by blast
    from Cons.IH [of "hw \<or> wallHit s (moveEnemy s e)" s1] obtain e2 where
      b: "events (snd (snd (enemyLoop m es (hw \<or> wallHit s (moveEnemy s e)) s1)))
          = events s1 @ e2" "filter isScoreUpdate e2 = []"
      by blast
    have "events (snd (snd (enemyLoop m (e # es) hw s))) = events s @ (e1 @ e2)"
      using True by (simp add: case_prod_beta Let_def s1_def [symmetric] a b)
    moreover have "filter isScoreUpdate (e1 @ e2) = []"
      using a b by simp
    ultimately show ?thesis by blast
  next
    case False
    then show ?thesis
      using Cons.IH [of hw s] by (simp add: case_prod_beta)
  qed
qed

lemma beforeCollision_events:
  "\<exists>pre. events (beforeCollision s) = events s @ pre \<and> filter isScoreUpdate pre = []"
proof -
  define s3 where "s3 = updateBullets (playerShooting (movePlayer s))"
  have "events s3 = events s \<or> events s3 = events s @ [PlayShoot]"
    using playerShooting_events [of "movePlayer s"] by (simp add: s3_def pre_frame)
  then obtain e1 where a: "events s3 = events s @ e1" "filter isScoreUpdate e1 = []"
    by (auto simp add: isScoreUpdate_def)
  from enemyLoop_events [of "getDifficultyMultipliers s" "enemies s3" False s3] obtain e2 where
    b: "events (snd (snd (enemyLoop (getDifficultyMultipliers s) (enemies s3) False s3)))
        = events s3 @ e2" "filter isScoreUpdate e2 = []"
    by blast
  have "events (beforeCollision s) = events s @ (e1 @ e2)"
    by (simp add: beforeCollision_def s3_def [symmetric] enemyLogic_def case_prod_beta
        Let_def a b)
  moreover have "filter isScoreUpdate (e1 @ e2) = []"
    using a b by simp
  ultimately show ?thesis by blast
qed

lemma beforeCollision_same:
  "score (beforeCollision s) = score s" "particles (beforeCollision s) = particles s"
  "rnd (beforeCollision s) = rnd s"
  by (simp_all add: beforeCollision_def enemyLogic_frame pre_frame)

lemma enemyLogic_active:
  "map active (enemies (enemyLogic m s)) = map active (enemies s)"
proof -
  have es: "fst (enemyLoop m (enemies s) False s)
            = map (\<lambda>e. if active e then moveEnemy s e else e) (enemies s)"
    by (rule enemyLoop_enemies) simp_all
  show ?thesis
    by (simp add: enemyLogic_def case_prod_beta Let_def es comp_def dropEnemy_def
        moveEnemy_def if_distrib cong: if_cong)
qed

lemma count_active: "length (filter active es) = length (filter id (map active es))"
  by (simp add: filter_map comp_def)

lemma beforeCollision_active:
  "map active (enemies (beforeCollision s)) = map active (enemies s)"
  "length (enemies (beforeCollision s)) = length (enemies s)"
  "length (filter active (enemies (beforeCollision s))) = length (filter active (enemies s))"
proof -
  show a: "map active (enemies (beforeCollision s)) = map active (enemies s)"
    by (simp add: beforeCollision_def enemyLogic_active pre_frame)
  show "length (enemies (beforeCollision s)) = length (enemies s)"
    using arg_cong [OF a, of length] by simp
  show "length (filter active (enemies (beforeCollision s))) = length (filter active (enemies s))"
    by (simp only: count_active a)
qed

text \<open>An update call in PLAYING that reaches the collision loop, seen from one turn of it.\<close>

lemma update_through_turn:
  assumes "state s = PLAYING" and "e \<in> set (enemies s)" and "active e"
    and "i < length (bullets (beforeCollision s))"
  shows "enemies (update dt s)
         = enemies (snd (collideLoop (drop (Suc i) (bullets (beforeCollision s)))
             (snd (collideBullet (bullets (beforeCollision s) ! i)
               (snd (collideLoop (take i (bullets (beforeCollision s))) (beforeCollision s)))))))"
    "score (update dt s)
         = score (snd (collideLoop (drop (Suc i) (bullets (beforeCollision s)))
             (snd (collideBullet (bullets (beforeCollision s) ! i)
               (snd (collideLoop (take i (bullets (beforeCollision s))) (beforeCollision s)))))))"
    "events (update dt s)
         = events (snd (collideLoop (drop (Suc i) (bullets (beforeCollision s)))
             (snd (collideBullet (bullets (beforeCollision s) ! i)
               (snd (collideLoop (take i (bullets (beforeCollision s))) (beforeCollision s)))))))"
    "particles (update dt s)
         = filter active (map updateParticle
            (particles (snd (collideLoop (drop (Suc i) (bullets (beforeCollision s)))
             (snd (collideBullet (bullets (beforeCollision s) ! i)
               (snd (collideLoop (take i (bullets (beforeCollision s))) (beforeCollision s))))))))) "
proof -
  note up = update_playing_alive [OF assms(1-3), of dt]
  note sp = collideLoop_split(2) [OF assms(4), of "beforeCollision s", symmetric]
  show "enemies (update dt s)
         = enemies (snd (collideLoop (drop (Suc i) (bullets (beforeCollision s)))
             (snd (collideBullet (bullets (beforeCollision s) ! i)
               (snd (collideLoop (take i (bullets (beforeCollision s))) (beforeCollision s)))))))"
    unfolding sp by (simp add: up post_frame collisionDetection_def case_prod_beta)
  show "score (update dt s)
         = score (snd (collideLoop (drop (Suc i) (bullets (beforeCollision s)))
             (snd (collideBullet (bullets (beforeCollision s) ! i)
               (snd (collideLoop (take i (bullets (beforeCollision s))) (beforeCollision s)))))))"
    unfolding sp by (simp add: up post_frame collisionDetection_def case_prod_beta)
  show "events (update dt s)
         = events (snd (collideLoop (drop (Suc i) (bullets (beforeCollision s)))
             (snd (collideBullet (bullets (beforeCollision s) ! i)
               (snd (collideLoop (take i (bullets (beforeCollision s))) (beforeCollision s)))))))"
    unfolding sp by (simp add: up post_frame collisionDetection_def case_prod_beta)
  show "particles (update dt s)
         = filter active (map updateParticle
            (particles (snd (collideLoop (drop (Suc i) (bullets (beforeCollision s)))
             (snd (collideBullet (bullets (beforeCollision s) ! i)
               (snd (collideLoop (take i (bullets (beforeCollision s))) (beforeCollision s))))))))) "
    unfolding sp
    by (simp add: up cleanupArrays_def updateParticles_def collisionDetection_def case_prod_beta)
qed

lemma enemyEffects_quiet:
  "\<not> rnd s (rpos s) < 0.001 * (1 + score s / 500) * freq m \<Longrightarrow>
   bullets (enemyEffects m e s) = bullets s"
  by (simp add: enemyEffects_def Let_def emit_def advance_def nextRandom_def)

lemma enemyLoop_quiet:
  "\<forall>n. \<not> rnd s n < 0.001 * (1 + score s / 500) * freq m \<Longrightarrow>
   bullets (snd (snd (enemyLoop m es hw s))) = bullets s"
proof (induction es arbitrary: hw s)
  case Nil
  show ?case by simp
next
  case (Cons e es)
  have "bullets (snd (snd (enemyLoop m es hw' (enemyEffects m e' s))))
        = bullets (enemyEffects m e' s)" for hw' e'
    using Cons.prems by (intro Cons.IH) (simp add: enemyEffects_frame)
  moreover have "bullets (enemyEffects m e' s) = bullets s" for e'
    using Cons.prems by (intro enemyEffects_quiet) simp
  moreover have "bullets (snd (snd (enemyLoop m es hw s))) = bullets s"
    using Cons.prems by (intro Cons.IH)
  ultimately show ?case
    by (simp add: case_prod_beta Let_def)
qed

lemma enemyLogic_quiet:
  "\<forall>n. \<not> rnd s n < 0.001 * (1 + score s / 500) * freq m \<Longrightarrow>
   bullets (enemyLogic m s) = bullets s"
  using enemyLoop_quiet [of s m "enemies s" False]
  by (simp add: enemyLogic_def case_prod_beta Let_def)

lemma enemyLogic_enemies:
  "enemies (enemyLogic m s)
   = (if \<exists>e\<in>set (enemies s). active e \<and> wallHit s (moveEnemy s e)
      then map dropEnemy (map (\<lambda>e. if active e then moveEnemy s e else e) (enemies s))
      else map (\<lambda>e. if active e then moveEnemy s e else e) (enemies s))"
proof -
  have hw: "fst (snd (enemyLoop m (enemies s) False s))
            = (\<exists>e\<in>set (enemies s). active e \<and> wallHit s (moveEnemy s e))"
    using enemyLoop_hitWall [of s s m "enemies s" False] by simp
  have es: "fst (enemyLoop m (enemies s) False s)
            = map (\<lambda>e. if active e then moveEnemy s e else e) (enemies s)"
    by (rule enemyLoop_enemies) simp_all
  show ?thesis
  proof (cases "\<exists>e\<in>set (enemies s). active e \<and> wallHit s (moveEnemy s e)")
    case True
    then have "fst (snd (enemyLoop m (enemies s) False s))" by (simp add: hw)
    then have "enemies (enemyLogic m s) = map dropEnemy (fst (enemyLoop m (enemies s) False s))"
      by (simp add: enemyLogic_def case_prod_beta Let_def)
    with True show ?thesis by (simp only: es if_True)
  next
    case False
    then have "\<not> fst (snd (enemyLoop m (enemies s) False s))" by (simp add: hw)
    then have "enemies (enemyLogic m s) = fst (enemyLoop m (enemies s) False s)"
      by (simp add: enemyLogic_def case_prod_beta Let_def)
    with False show ?thesis by (simp only: es if_False)
  qed
qed

lemma crossfire_moved:
  "bullets (updateBullets (playerShooting (movePlayer crossfireEngine)))
   = [crossBullet\<lparr>ent_y := 65\<rparr>]"
  "enemies (updateBullets (playerShooting (movePlayer crossfireEngine)))
   = [newEnemy 100 0 0, (newEnemy 100 0 0)\<lparr>ent_x := 102\<rparr>, newEnemy 100 0 4]"
  "rnd (updateBullets (playerShooting (movePlayer crossfireEngine))) = (\<lambda>n. 1 / 2)"
  "score (updateBullets (playerShooting (movePlayer crossfireEngine))) = 0"
  "enemySpeed (updateBullets (playerShooting (movePlayer crossfireEngine))) = 1"
  "enemyDirection (updateBullets (playerShooting (movePlayer crossfireEngine))) = 1"
  "width (updateBullets (playerShooting (movePlayer crossfireEngine))) = 800"
  by (simp_all add: pre_frame updateBullets_def moveBullet_def playerShooting_def
      movePlayer_def crossfireEngine_def crossBullet_def playingEngine_def idleEngine_def
      constructor_def playerBullet_def BULLET_SPEED_def Let_def)

lemma crossfire_before:
  "bullets (beforeCollision crossfireEngine) = [crossBullet\<lparr>ent_y := 65\<rparr>]"
  "enemies (beforeCollision crossfireEngine)
   = [(newEnemy 100 0 0)\<lparr>ent_x := 101\<rparr>, (newEnemy 100 0 0)\<lparr>ent_x := 103\<rparr>,
      (newEnemy 100 0 4)\<lparr>ent_x := 301\<rparr>]"
proof -
  have m: "getDifficultyMultipliers crossfireEngine = \<lparr>speed = 1, freq = 1\<rparr>"
    by (simp add: getDifficultyMultipliers_def crossfireEngine_def playingEngine_def
        idleEngine_def constructor_def)
  show "bullets (beforeCollision crossfireEngine) = [crossBullet\<lparr>ent_y := 65\<rparr>]"
    unfolding beforeCollision_def m
    by (subst enemyLogic_quiet) (simp_all add: crossfire_moved)
  show "enemies (beforeCollision crossfireEngine)
   = [(newEnemy 100 0 0)\<lparr>ent_x := 101\<rparr>, (newEnemy 100 0 0)\<lparr>ent_x := 103\<rparr>,
      (newEnemy 100 0 4)\<lparr>ent_x := 301\<rparr>]"
    unfolding beforeCollision_def enemyLogic_enemies
    by (simp add: crossfire_moved moveEnemy_def wallHit_def newEnemy_def)
qed

section \<open>One player bullet, several enemies\<close>

text \<open>
  C10. In an update call in PLAYING that reaches the collision loop, an active player
  bullet is tested in its turn against every enemy, also after it has hit one. With k
  the number of enemies then active whose box overlaps the bullet's, the turn
  deactivates all k, adds 100 k to the score, calls the score callback k times and
  spawns 25 k particles, and the bullet stays active only when k = 0. At the end of the
  call these k enemies are inactive; the score and the number of score callbacks of the
  call have grown by 100 and 1 for each enemy the call deactivated, the k among them;
  and when no other bullet is an active player bullet, the enemies after the call are
  those before the collision loop with exactly these k deactivated, the score has grown
  by 100 k and the score callback was called k times.
\<close>

theorem player_bullet_hits_every_overlapping_enemy:
  assumes "state s = PLAYING" and "e \<in> set (enemies s)" and "active e"
    and "i < length (bullets (beforeCollision s))"
    and "active (bullets (beforeCollision s) ! i)"
    and "isPlayerBullet (bullets (beforeCollision s) ! i)"
  shows "let m = beforeCollision s; b = bullets m ! i;
             t = snd (collideLoop (take i (bullets m)) m);
             k = length (filter (\<lambda>e. active e \<and> overlaps b e) (enemies t))
         in enemies (snd (collideBullet b t))
              = map (\<lambda>e. if active e \<and> overlaps b e then e\<lparr>active := False\<rparr> else e) (enemies t) \<and>
            score (snd (collideBullet b t)) = score t + 100 * real k \<and>
            length (filter isScoreUpdate (events (snd (collideBullet b t))))
              = length (filter isScoreUpdate (events t)) + k \<and>
            length (particles (snd (collideBullet b t))) = length (particles t) + 25 * k \<and>
            active (bullets (collisionDetection m) ! i) = (k = 0) \<and>
            length (enemies (update dt s)) = length (enemies t) \<and>
            (\<forall>j<length (enemies t). active (enemies t ! j) \<and> overlaps b (enemies t ! j)
               \<longrightarrow> \<not> active (enemies (update dt s) ! j)) \<and>
            (\<exists>K1 K2. score t = score s + 100 * real K1 \<and>
               score (update dt s) = score s + 100 * real (K1 + k + K2) \<and>
               length (filter isScoreUpdate (events (update dt s)))
                 = length (filter isScoreUpdate (events s)) + (K1 + k + K2) \<and>
               length (filter active (enemies s))
                 = length (filter active (enemies (update dt s))) + (K1 + k + K2)) \<and>
            ((\<forall>j<length (bullets m). j \<noteq> i
                \<longrightarrow> \<not> (active (bullets m ! j) \<and> isPlayerBullet (bullets m ! j))) \<longrightarrow>
               enemies (update dt s)
                 = map (\<lambda>e. if active e \<and> overlaps b e then e\<lparr>active := False\<rparr> else e) (enemies m) \<and>
               k = length (filter (\<lambda>e. active e \<and> overlaps b e) (enemies m)) \<and>
               score (update dt s) = score s + 100 * real k \<and>
               length (filter isScoreUpdate (events (update dt s)))
                 = length (filter isScoreUpdate (events s)) + k)"
proof -
  define m where "m = beforeCollision s"
  define bs where "bs = bullets m"
  define b where "b = bs ! i"
  define t where "t = snd (collideLoop (take i bs) m)"
  define t' where "t' = snd (collideBullet b t)"
  define c where "c = snd (collideLoop (drop (Suc i) bs) t')"
  define k where "k = length (filter (\<lambda>e. active e \<and> overlaps b e) (enemies t))"
  have i: "i < length bs" and b: "active b" "isPlayerBullet b"
    using assms(4-6) by (simp_all add: bs_def m_def b_def)
  have sd: "shotDown b = (\<lambda>e. active e \<and> overlaps b e)"
    by (simp add: shotDown_def fun_eq_iff)
  note through = update_through_turn [OF assms(1-4), of dt,
      folded m_def, folded bs_def, folded b_def, folded t_def, folded t'_def, folded c_def]
  \<comment> \<open>the bullet's own turn\<close>
  note kills = collideBullet_kills [OF b, of t, folded t'_def, folded k_def]
  have turn1: "enemies t'
      = map (\<lambda>e. if active e \<and> overlaps b e then e\<lparr>active := False\<rparr> else e) (enemies t)"
    and turn2: "score t' = score t + 100 * real k"
    and turn4: "length (particles t') = length (particles t) + 25 * k"
    and turn5: "active (fst (collideBullet b t)) = (k = 0)"
    using kills by (simp_all add: k_def)
  from kills obtain evs where "events t' = events t @ evs" "length (filter isScoreUpdate evs) = k"
    by blast
  then have turn3: "length (filter isScoreUpdate (events t'))
      = length (filter isScoreUpdate (events t)) + k"
    by simp
  have act_turn: "length (filter active (enemies t)) = length (filter active (enemies t')) + k"
    using shot_count [of "enemies t" b] unfolding sd by (simp add: turn1 k_def)
  have off: "active (bullets (collisionDetection m) ! i) = (k = 0)"
    using collideLoop_split(1) [OF i, of m] turn5
    by (simp add: collisionDetection_def case_prod_beta bs_def [symmetric] b_def [symmetric]
        t_def [symmetric])
  \<comment> \<open>the turns before and after\<close>
  from collideLoop_account [of m "take i bs"] obtain K1 where
    before: "length (filter active (enemies m)) = length (filter active (enemies t)) + K1"
      "score t = score m + 100 * real K1"
      "length (filter isScoreUpdate (events t)) = length (filter isScoreUpdate (events m)) + K1"
    unfolding t_def by blast
  from collideLoop_account [of t' "drop (Suc i) bs"] obtain K2 where
    after: "length (filter active (enemies t')) = length (filter active (enemies c)) + K2"
      "score c = score t' + 100 * real K2"
      "length (filter isScoreUpdate (events c)) = length (filter isScoreUpdate (events t')) + K2"
    unfolding c_def by blast
  from beforeCollision_events [of s] obtain pre where
    "events m = events s @ pre" "filter isScoreUpdate pre = []"
    unfolding m_def by blast
  then have ev_m: "length (filter isScoreUpdate (events m)) = length (filter isScoreUpdate (events s))"
    by simp
  have sc_m: "score m = score s"
    and act_m: "length (filter active (enemies m)) = length (filter active (enemies s))"
    by (simp_all add: m_def beforeCollision_same beforeCollision_active)
  have total: "\<exists>K1 K2. score t = score s + 100 * real K1 \<and>
               score (update dt s) = score s + 100 * real (K1 + k + K2) \<and>
               length (filter isScoreUpdate (events (update dt s)))
                 = length (filter isScoreUpdate (events s)) + (K1 + k + K2) \<and>
               length (filter active (enemies s))
                 = length (filter active (enemies (update dt s))) + (K1 + k + K2)"
  proof (intro exI conjI)
    show "score t = score s + 100 * real K1"
      using before(2) sc_m by simp
    show "score (update dt s) = score s + 100 * real (K1 + k + K2)"
      using before(2) turn2 after(2) sc_m by (simp add: through)
    show "length (filter isScoreUpdate (events (update dt s)))
          = length (filter isScoreUpdate (events s)) + (K1 + k + K2)"
      using before(3) turn3 after(3) ev_m by (simp add: through)
    show "length (filter active (enemies s))
          = length (filter active (enemies (update dt s))) + (K1 + k + K2)"
      using before(1) act_turn after(1) act_m by (simp add: through)
  qed
  \<comment> \<open>the enemies it has hit stay deactivated\<close>
  have len: "length (enemies (update dt s)) = length (enemies t)"
    using collideLoop_dead [of "drop (Suc i) bs" t']
    by (simp add: through c_def [symmetric] turn1)
  have dead: "\<not> active (enemies (update dt s) ! j)"
    if "j < length (enemies t)" "active (enemies t ! j) \<and> overlaps b (enemies t ! j)" for j
  proof -
    have "j < length (enemies t')" "\<not> active (enemies t' ! j)"
      using that by (simp_all add: turn1)
    then show ?thesis
      using collideLoop_dead [of "drop (Suc i) bs" t'] by (simp add: through c_def [symmetric])
  qed
  \<comment> \<open>when no other bullet is an active player bullet\<close>
  have alone: "enemies (update dt s)
                 = map (\<lambda>e. if active e \<and> overlaps b e then e\<lparr>active := False\<rparr> else e) (enemies m) \<and>
               k = length (filter (\<lambda>e. active e \<and> overlaps b e) (enemies m)) \<and>
               score (update dt s) = score s + 100 * real k \<and>
               length (filter isScoreUpdate (events (update dt s)))
                 = length (filter isScoreUpdate (events s)) + k"
    if others: "\<forall>j<length bs. j \<noteq> i \<longrightarrow> \<not> (active (bs ! j) \<and> isPlayerBullet (bs ! j))"
  proof -
    have "\<forall>x\<in>set (take i bs). \<not> (active x \<and> isPlayerBullet x)"
    proof
      fix x assume "x \<in> set (take i bs)"
      then obtain j where "j < length (take i bs)" "x = take i bs ! j"
        by (auto simp add: in_set_conv_nth)
      then have "j < length bs" "j \<noteq> i" "x = bs ! j"
        using i by simp_all
      with others show "\<not> (active x \<and> isPlayerBullet x)" by blast
    qed
    from collideLoop_idle [OF this, of m] have t0:
      "enemies t = enemies m" "score t = score m"
      "length (filter isScoreUpdate (events t)) = length (filter isScoreUpdate (events m))"
      by (simp_all add: t_def)
    have "\<forall>x\<in>set (drop (Suc i) bs). \<not> (active x \<and> isPlayerBullet x)"
    proof
      fix x assume "x \<in> set (drop (Suc i) bs)"
      then obtain j where "j < length (drop (Suc i) bs)" "x = drop (Suc i) bs ! j"
        by (auto simp add: in_set_conv_nth)
      then have "Suc i + j < length bs" "Suc i + j \<noteq> i" "x = bs ! (Suc i + j)"
        by simp_all
      with others show "\<not> (active x \<and> isPlayerBullet x)" by blast
    qed
    from collideLoop_idle [OF this, of t'] have c0:
      "enemies c = enemies t'" "score c = score t'"
      "length (filter isScoreUpdate (events c)) = length (filter isScoreUpdate (events t'))"
      by (simp_all add: c_def)
    show ?thesis
      using t0 c0 turn1 turn2 turn3 sc_m ev_m by (simp add: through k_def)
  qed
  show ?thesis
    unfolding Let_def m_def [symmetric] bs_def [symmetric] b_def [symmetric]
      t_def [symmetric] t'_def [symmetric] k_def [symmetric]
    using turn1 turn2 turn3 turn4 off len dead total alone
    by (simp add: bs_def)
qed

theorem player_bullet_hits_every_overlapping_enemy_witness:
  "state crossfireEngine = PLAYING \<and> newEnemy 100 0 0 \<in> set (enemies crossfireEngine) \<and>
   active (newEnemy 100 0 0) \<and>
   0 < length (bullets (beforeCollision crossfireEngine)) \<and>
   active (bullets (beforeCollision crossfireEngine) ! 0) \<and>
   isPlayerBullet (bullets (beforeCollision crossfireEngine) ! 0) \<and>
   score (update 16 crossfireEngine) = 200 \<and>
   map active (enemies (update 16 crossfireEngine)) = [False, False, True] \<and>
   length (filter isScoreUpdate (events (update 16 crossfireEngine))) = 2"
proof -
  have h: "state crossfireEngine = PLAYING" "newEnemy 100 0 0 \<in> set (enemies crossfireEngine)"
    "active (newEnemy 100 0 0)"
    by (simp_all add: crossfireEngine_def playingEngine_def idleEngine_def constructor_def
        newEnemy_def)
  have g: "0 < length (bullets (beforeCollision crossfireEngine))"
    "active (bullets (beforeCollision crossfireEngine) ! 0)"
    "isPlayerBullet (bullets (beforeCollision crossfireEngine) ! 0)"
    by (simp_all add: crossfire_before crossBullet_def playerBullet_def)
  have s0: "score crossfireEngine = 0" "events crossfireEngine = []"
    by (simp_all add: crossfireEngine_def playingEngine_def idleEngine_def constructor_def)
  have o: "overlaps (crossBullet\<lparr>ent_y := 65\<rparr>) ((newEnemy 100 0 0)\<lparr>ent_x := 101\<rparr>)"
    "overlaps (crossBullet\<lparr>ent_y := 65\<rparr>) ((newEnemy 100 0 0)\<lparr>ent_x := 103\<rparr>)"
    "\<not> overlaps (crossBullet\<lparr>ent_y := 65\<rparr>) ((newEnemy 100 0 4)\<lparr>ent_x := 301\<rparr>)"
    "active (newEnemy 100 0 0)" "active (newEnemy 100 0 4)"
    by (simp_all add: crossBullet_def playerBullet_def newEnemy_def overlaps_def)
  note all = player_bullet_hits_every_overlapping_enemy [OF h g, of 16, unfolded Let_def]
  note last = all [THEN conjunct2, THEN conjunct2, THEN conjunct2, THEN conjunct2,
      THEN conjunct2, THEN conjunct2, THEN conjunct2, THEN conjunct2]
  have one: "\<forall>j<length (bullets (beforeCollision crossfireEngine)). j \<noteq> 0 \<longrightarrow>
      \<not> (active (bullets (beforeCollision crossfireEngine) ! j)
         \<and> isPlayerBullet (bullets (beforeCollision crossfireEngine) ! j))"
    by (simp add: crossfire_before)
  from last [THEN mp, OF one] show ?thesis
    using h g by (simp add: crossfire_before o s0)
qed

section \<open>An enemy bullet reaches the player\<close>

lemma hitPlayer_burst:
  "\<exists>ps. particles (hitPlayer t) = particles t @ ps \<and> length ps = 40 \<and>
     (\<forall>q\<in>set ps. \<exists>j\<ge>rpos t.
        q = particleAt (ent_x (player t) + ent_width (player t) / 2)
              (ent_y (player t) + ent_height (player t) / 2) (color (player t)) (rnd t) j)"
proof -
  define px where "px = ent_x (player t) + ent_width (player t) / 2"
  define py where "py = ent_y (player t) + ent_height (player t) / 2"
  define t1 where "t1 = emit PlayExplosion t"
  have t1: "rpos t1 = rpos t" "rnd t1 = rnd t" "particles t1 = particles t"
    by (simp_all add: t1_def emit_def)
  from spawnParticles_new [of px py "color (player t)" 40 t1] obtain ps where
    ps: "particles (spawnParticles px py (color (player t)) 40 t1) = particles t @ ps"
      "length ps = 40"
      "\<forall>p\<in>set ps. \<exists>i\<ge>rpos t. p = particleAt px py (color (player t)) (rnd t) i"
    unfolding t1 by blast
  have "particles (hitPlayer t) = particles t @ ps"
    using ps(1) by (simp add: hitPlayer_def Let_def emit_def px_def py_def t1_def)
  with ps(2,3) show ?thesis
    unfolding px_def py_def by blast
qed

text \<open>A particle fresh from the emitter, of radius at least 2, is still active a tick later.\<close>

lemma fresh_particle_survives:
  "0 \<le> f (j + (if f (j + 2) > 0.3 then 4 else 3)) \<Longrightarrow>
   active (updateParticle (particleAt px py c f j))"
  by (simp add: updateParticle_def particleAt_def PARTICLE_LIFE_def Let_def)

text \<open>
  C6, amended. In an update call in PLAYING with at least one enemy active at its start,
  an enemy bullet that is active and overlaps the player's box when the collision
  detection runs is deactivated in its turn of the loop. That turn spawns exactly 40
  particles at the player's centre, each with the player's colour as the base colour of
  its colour draws, sets the state to GAME_OVER and calls the state callback with it
  right after the explosion sound. The particles after the call are the particles of
  that moment, these 40 and those of later turns, each moved once and the inactive ones
  dropped (none of the 40 is dropped when no random draw is negative); the events of the
  call hold the explosion and the callback; the call ends in GAME_OVER with only active
  bullets left, and the state is GAME_OVER after every later update call.
\<close>

theorem enemy_bullet_hits_player:
  assumes "state s = PLAYING" and "e \<in> set (enemies s)" and "active e"
    and "i < length (bullets (beforeCollision s))"
    and "active (bullets (beforeCollision s) ! i)"
    and "\<not> isPlayerBullet (bullets (beforeCollision s) ! i)"
    and "overlaps (bullets (beforeCollision s) ! i) (player (beforeCollision s))"
  shows "let m = beforeCollision s; b = bullets m ! i;
             t = snd (collideLoop (take i (bullets m)) m); p = player (update dt s)
         in collideBullet b t = (b\<lparr>active := False\<rparr>, hitPlayer t) \<and>
            \<not> active (bullets (collisionDetection m) ! i) \<and>
            p = player m \<and> color p = color (player s) \<and>
            (\<exists>ps later evs.
               length ps = 40 \<and>
               (\<forall>q\<in>set ps. ent_x q = ent_x p + ent_width p / 2 \<and>
                  ent_y q = ent_y p + ent_height p / 2 \<and> active q \<and> life q = 45 \<and>
                  (\<exists>j\<ge>rpos t. color q
                     = particleColor (color (player s)) (rnd s (j + 2)) (rnd s (j + 3)))) \<and>
               particles (hitPlayer t) = particles t @ ps \<and>
               particles (update dt s)
                 = filter active (map updateParticle (particles t @ ps @ later)) \<and>
               ((\<forall>n. 0 \<le> rnd s n) \<longrightarrow>
                  particles (update dt s)
                    = filter active (map updateParticle (particles t)) @ map updateParticle ps
                      @ filter active (map updateParticle later)) \<and>
               events (update dt s) = events t @ [PlayExplosion, StateUpdate GAME_OVER] @ evs) \<and>
            (\<exists>earlier pre. particles t = particles s @ earlier \<and> events t = events s @ pre) \<and>
            events (hitPlayer t) = events t @ [PlayExplosion, StateUpdate GAME_OVER] \<and>
            state (hitPlayer t) = GAME_OVER \<and>
            state (update dt s) = GAME_OVER \<and>
            (\<forall>b'\<in>set (bullets (update dt s)). active b') \<and>
            (\<forall>dts. state (fold update dts (update dt s)) = GAME_OVER)"
proof -
  define m where "m = beforeCollision s"
  define bs where "bs = bullets m"
  define b where "b = bs ! i"
  define t where "t = snd (collideLoop (take i bs) m)"
  define t' where "t' = snd (collideBullet b t)"
  define c where "c = snd (collideLoop (drop (Suc i) bs) t')"
  have i: "i < length bs" and b: "active b" "\<not> isPlayerBullet b" "overlaps b (player m)"
    using assms(4-7) by (simp_all add: bs_def m_def b_def)
  note through = update_through_turn [OF assms(1-4), of dt,
      folded m_def, folded bs_def, folded b_def, folded t_def, folded t'_def, folded c_def]
  have tm: "player t = player m" "rnd t = rnd m"
    using collideLoop_frame [of "take i bs" m] by (simp_all add: t_def)
  have ms: "rnd m = rnd s" "particles m = particles s"
    by (simp_all add: m_def beforeCollision_same)
  have cb: "collideBullet b t = (b\<lparr>active := False\<rparr>, hitPlayer t)"
    using b by (intro collideBullet_enemy_bullet) (simp_all add: tm)
  have t': "t' = hitPlayer t"
    by (simp add: t'_def cb)
  have nth: "fst (collideLoop bs m) ! i = b\<lparr>active := False\<rparr>"
    using collideLoop_split(1) [OF i, of m] by (simp add: b_def [symmetric] t_def [symmetric] cb)
  have off: "\<not> active (bullets (collisionDetection m) ! i)"
    by (simp add: collisionDetection_def case_prod_beta bs_def [symmetric] nth)
  have "state c = GAME_OVER"
    unfolding c_def by (rule collideLoop_state_over) (simp add: t' hitPlayer_frame)
  moreover have "snd (collideLoop bs m) = c"
    using collideLoop_split(2) [OF i, of m]
    by (simp add: c_def t'_def b_def [symmetric] t_def [symmetric])
  ultimately have cd: "state (collisionDetection m) = GAME_OVER"
    by (simp add: collisionDetection_def case_prod_beta bs_def [symmetric])
  have up: "update dt s = cleanupArrays (updateParticles (collisionDetection m))"
    unfolding m_def using assms(1-3) by (rule update_playing_alive)
  have over: "state (update dt s) = GAME_OVER"
    by (simp add: up post_frame cd)
  have act: "\<forall>b'\<in>set (bullets (update dt s)). active b'"
    by (simp add: up cleanupArrays_def)
  have later: "\<forall>dts. state (fold update dts (update dt s)) = GAME_OVER"
    using over by (simp add: fold_update_over)
  have pl: "player (update dt s) = player m"
    by (simp add: up post_frame collisionDetection_frame)
  have col: "color (player m) = color (player s)"
    by (simp add: m_def beforeCollision_frame playerShooting_def movePlayer_def Let_def emit_def)
  \<comment> \<open>the burst of this turn, and what the turns after it add\<close>
  from hitPlayer_burst [of t] obtain ps where
    ps: "particles (hitPlayer t) = particles t @ ps" "length ps = 40"
      "\<forall>q\<in>set ps. \<exists>j\<ge>rpos t.
        q = particleAt (ent_x (player m) + ent_width (player m) / 2)
              (ent_y (player m) + ent_height (player m) / 2) (color (player s)) (rnd s) j"
    unfolding tm ms col by blast
  have each: "\<forall>q\<in>set ps. ent_x q = ent_x (player m) + ent_width (player m) / 2 \<and>
        ent_y q = ent_y (player m) + ent_height (player m) / 2 \<and> active q \<and> life q = 45 \<and>
        (\<exists>j\<ge>rpos t. color q = particleColor (color (player s)) (rnd s (j + 2)) (rnd s (j + 3)))"
  proof
    fix q assume "q \<in> set ps"
    with ps(3) obtain j where "rpos t \<le> j"
      "q = particleAt (ent_x (player m) + ent_width (player m) / 2)
              (ent_y (player m) + ent_height (player m) / 2) (color (player s)) (rnd s) j"
      by blast
    then show "ent_x q = ent_x (player m) + ent_width (player m) / 2 \<and>
        ent_y q = ent_y (player m) + ent_height (player m) / 2 \<and> active q \<and> life q = 45 \<and>
        (\<exists>j\<ge>rpos t. color q = particleColor (color (player s)) (rnd s (j + 2)) (rnd s (j + 3)))"
      by (auto simp add: particleAt_def PARTICLE_LIFE_def)
  qed
  have keep: "filter active (map updateParticle ps) = map updateParticle ps"
    if nonneg: "\<forall>n. 0 \<le> rnd s n"
  proof -
    have "active (updateParticle q)" if "q \<in> set ps" for q
    proof -
      from ps(3) that obtain j where
        "q = particleAt (ent_x (player m) + ent_width (player m) / 2)
              (ent_y (player m) + ent_height (player m) / 2) (color (player s)) (rnd s) j"
        by blast
      then show ?thesis
        using nonneg by (simp only: fresh_particle_survives)
    qed
    then show ?thesis by simp
  qed
  from collideLoop_grows [of "drop (Suc i) bs" t'] obtain evs lat where
    gr: "events c = events t' @ evs" "particles c = particles t' @ lat"
    unfolding c_def by blast
  have parts: "particles (update dt s)
      = filter active (map updateParticle (particles t @ ps @ lat))"
    by (simp only: through gr t' ps(1) append_assoc)
  have evts: "events (update dt s) = events t @ [PlayExplosion, StateUpdate GAME_OVER] @ evs"
    by (simp add: through gr t' hitPlayer_effect(1))
  have parts': "particles (update dt s)
        = filter active (map updateParticle (particles t)) @ map updateParticle ps
          @ filter active (map updateParticle lat)"
    if "\<forall>n. 0 \<le> rnd s n"
    using keep [OF that] by (simp add: parts)
  have burst: "\<exists>ps later evs.
               length ps = 40 \<and>
               (\<forall>q\<in>set ps. ent_x q = ent_x (player m) + ent_width (player m) / 2 \<and>
                  ent_y q = ent_y (player m) + ent_height (player m) / 2 \<and> active q \<and> life q = 45 \<and>
                  (\<exists>j\<ge>rpos t. color q
                     = particleColor (color (player s)) (rnd s (j + 2)) (rnd s (j + 3)))) \<and>
               particles (hitPlayer t) = particles t @ ps \<and>
               particles (update dt s)
                 = filter active (map updateParticle (particles t @ ps @ later)) \<and>
               ((\<forall>n. 0 \<le> rnd s n) \<longrightarrow>
                  particles (update dt s)
                    = filter active (map updateParticle (particles t)) @ map updateParticle ps
                      @ filter active (map updateParticle later)) \<and>
               events (update dt s) = events t @ [PlayExplosion, StateUpdate GAME_OVER] @ evs"
    using ps(1,2) each parts parts' evts by blast
  \<comment> \<open>what the turns before it added\<close>
  from collideLoop_grows [of "take i bs" m] obtain e1 p1 where
    "events t = events m @ e1" "particles t = particles m @ p1"
    unfolding t_def by blast
  moreover from beforeCollision_events [of s] obtain e0 where "events m = events s @ e0"
    unfolding m_def by blast
  ultimately have "particles t = particles s @ p1" "events t = events s @ (e0 @ e1)"
    by (simp_all add: ms)
  then have grown: "\<exists>earlier pre. particles t = particles s @ earlier \<and> events t = events s @ pre"
    by blast
  show ?thesis
    unfolding Let_def m_def [symmetric] bs_def [symmetric] b_def [symmetric]
      t_def [symmetric] pl
    using cb off col burst grown hitPlayer_effect(1) [of t] hitPlayer_frame(10) [of t]
      over act later
    by (simp add: bs_def)
qed

lemma underFire_before:
  "bullets (beforeCollision underFireEngine) = [incomingBullet\<lparr>ent_y := 545 + 14 / 3\<rparr>]"
  "player (beforeCollision underFireEngine) = (player idleEngine)\<lparr>ent_x := 375\<rparr>"
  by (simp_all add: beforeCollision_def enemyLogic_def enemyEffects_def moveEnemy_def
      wallHit_def nextRandom_def advance_def getDifficultyMultipliers_def updateBullets_def
      moveBullet_def playerShooting_def movePlayer_def underFireEngine_def
      playingEngine_def idleEngine_def constructor_def incomingBullet_def enemyBullet_def
      newEnemy_def PLAYER_SPEED_def BULLET_SPEED_def Let_def)

theorem enemy_bullet_hits_player_witness:
  "state underFireEngine = PLAYING \<and> newEnemy 200 0 0 \<in> set (enemies underFireEngine) \<and>
   active (newEnemy 200 0 0) \<and>
   0 < length (bullets (beforeCollision underFireEngine)) \<and>
   active (bullets (beforeCollision underFireEngine) ! 0) \<and>
   \<not> isPlayerBullet (bullets (beforeCollision underFireEngine) ! 0) \<and>
   overlaps (bullets (beforeCollision underFireEngine) ! 0) (player (beforeCollision underFireEngine)) \<and>
   state (update 16 underFireEngine) = GAME_OVER \<and>
   state (fold update [16, 16] (update 16 underFireEngine)) = GAME_OVER"
proof -
  have h: "state underFireEngine = PLAYING" "newEnemy 200 0 0 \<in> set (enemies underFireEngine)"
    "active (newEnemy 200 0 0)"
    by (simp_all add: underFireEngine_def playingEngine_def idleEngine_def constructor_def
        newEnemy_def)
  have g: "0 < length (bullets (beforeCollision underFireEngine))"
    "active (bullets (beforeCollision underFireEngine) ! 0)"
    "\<not> isPlayerBullet (bullets (beforeCollision underFireEngine) ! 0)"
    "overlaps (bullets (beforeCollision underFireEngine) ! 0) (player (beforeCollision underFireEngine))"
    by (simp_all add: underFire_before incomingBullet_def enemyBullet_def overlaps_def
        idleEngine_def constructor_def)
  from enemy_bullet_hits_player [OF h g, of 16] have
    "state (update 16 underFireEngine) = GAME_OVER"
    "\<forall>dts. state (fold update dts (update 16 underFireEngine)) = GAME_OVER"
    unfolding Let_def by blast+
  then show ?thesis
    using h g by blast
qed

text \<open>
  C6 as stated fails when no enemy is active: the call ends in VICTORY before the
  collision detection, and the enemy bullet overlapping the player stays active.
\<close>

theorem enemy_bullet_after_last_enemy_counterexample:
  "state lastShotEngine = PLAYING \<and> bullets lastShotEngine = [incomingBullet] \<and>
   active incomingBullet \<and> \<not> isPlayerBullet incomingBullet \<and>
   overlaps incomingBullet (player lastShotEngine) \<and>
   state (update 16 lastShotEngine) = VICTORY \<and>
   state (update 16 lastShotEngine) \<noteq> GAME_OVER \<and>
   bullets (update 16 lastShotEngine) = [incomingBullet\<lparr>ent_y := 545 + 14 / 3\<rparr>] \<and>
   active (incomingBullet\<lparr>ent_y := 545 + 14 / 3\<rparr>) \<and>
   overlaps (incomingBullet\<lparr>ent_y := 545 + 14 / 3\<rparr>) (player (update 16 lastShotEngine)) \<and>
   particles (update 16 lastShotEngine) = [] \<and>
   events (update 16 lastShotEngine) = [StateUpdate VICTORY]"
proof -
  have h: "state lastShotEngine = PLAYING" "\<forall>e\<in>set (enemies lastShotEngine). \<not> active e"
    by (simp_all add: lastShotEngine_def underFireEngine_def playingEngine_def idleEngine_def
        constructor_def)
  show ?thesis
    unfolding update_no_enemy [OF h]
    by (simp add: emit_def updateBullets_def moveBullet_def playerShooting_def movePlayer_def
      lastShotEngine_def underFireEngine_def playingEngine_def idleEngine_def constructor_def
      incomingBullet_def enemyBullet_def newEnemy_def overlaps_def PLAYER_SPEED_def
      BULLET_SPEED_def Let_def)
qed

section \<open>resize\<close>

text \<open>
  C2. resize sets the surface dimensions and the player's y to height - 60, but it
  compares the player's x with the new width, not with width - player width: on the
  400 by 600 surface the player of the 800 by 600 engine keeps x = 380 and overhangs the
  right edge (380 > 400 - 40).
\<close>

theorem resize_leaves_player_overhanging:
  "ent_x (player idleEngine) = 380 \<and> ent_width (player idleEngine) = 40 \<and>
   width (resize 400 600 idleEngine) = 400 \<and> height (resize 400 600 idleEngine) = 600 \<and>
   ent_y (player (resize 400 600 idleEngine)) = 540 \<and>
   ent_x (player (resize 400 600 idleEngine)) = 380 \<and>
   \<not> ent_x (player (resize 400 600 idleEngine))
       \<le> width (resize 400 600 idleEngine) - ent_width (player (resize 400 600 idleEngine))"
  by (simp add: resize_def idleEngine_def constructor_def Let_def)

end
